theory Spec2Isabelle
  imports Main
begin

section \<open>Default memory resources (dali/core/mm/default\_resources.cc)\<close>

text \<open>
  A shallow embedding of the registry of default memory resources. The registry
  (\<open>struct DefaultResources\<close>), the function-local statics of the translation unit,
  the object store and the bookkeeping of shared ownership form one record,
  \<open>world\<close>, which every operation takes and returns. Whatever the operation asks of
  the device runtime, the C library or the build configuration is read from a second
  record, \<open>runtime\<close>, that describes the platform at the moment of the call.
  A C++ exception is the \<open>Inl\<close> branch of the result; the world is returned in both
  branches, because a throwing call may already have changed it.
\<close>

subsection \<open>Objects, shared pointers and errors\<close>

type_synonym addr = nat

text \<open>\<open>memory_kind::host\<close>, \<open>pinned\<close>, \<open>device\<close>, \<open>managed\<close>.\<close>

datatype memory_kind = Host | Pinned | Device | Managed

text \<open>
  The dynamic type of a memory resource object. The first six are the classes this file
  instantiates; \<open>user_resource\<close> stands for a class defined by a client and installed
  through \<open>SetDefaultResource\<close>, given by what the two \<open>dynamic_cast\<close>s of
  \<open>GetPoolInterface\<close> see in it: whether it is a \<open>pool_resource_base\<close>, and, when it is a
  \<open>with_upstream\<close>, what \<open>upstream()\<close> returns (possibly null).
\<close>

datatype resource_type =
    malloc_memory_resource
  | cuda_malloc_memory_resource int
  | pinned_malloc_memory_resource
  | managed_malloc_memory_resource
  | async_pool_vm_resource
  | async_pool_resource memory_kind "addr option"
  | user_resource bool "addr option option"

text \<open>
  Modelled from the spec: the class declarations (\<open>async_pool.h\<close>, \<open>malloc_resource.h\<close>,
  \<open>cuda_vm_resource.h\<close>) are not part of the sources at hand. Following the spec, a pool
  allocator exposes the release-unused capability, the coalescing pool sits on the upstream
  it was constructed with, the mapped pool has no separate upstream, and a plain allocator
  exposes neither capability.
\<close>

fun is_pool_resource_base :: "resource_type \<Rightarrow> bool" where
  "is_pool_resource_base async_pool_vm_resource = True"
| "is_pool_resource_base (async_pool_resource k up) = True"
| "is_pool_resource_base (user_resource p up) = p"
| "is_pool_resource_base _ = False"

fun as_with_upstream :: "resource_type \<Rightarrow> addr option option" where
  "as_with_upstream (async_pool_resource k up) = Some up"
| "as_with_upstream (user_resource p up) = up"
| "as_with_upstream _ = None"

text \<open>
  An object of the store: its class and the amount of unused memory it currently caches
  (what \<open>release_unused\<close> gives back).
\<close>

record obj =
  rtype :: resource_type
  cached :: nat

text \<open>
  \<open>std::shared_ptr\<close>: the pointer \<open>get()\<close> returns (\<open>None\<close> is \<open>nullptr\<close>) and the objects
  whose lifetime the control block shares, in the order in which they are destroyed when
  the last copy goes away.
\<close>

record shared_ptr =
  get :: "addr option"
  owns :: "addr list"

definition null_ptr :: shared_ptr where
  "null_ptr = \<lparr>get = None, owns = []\<rparr>"

text \<open>\<open>std::shared_ptr<T>(p)\<close> for a freshly made object, as \<open>std::make_shared\<close> returns it.\<close>

definition owning :: "addr \<Rightarrow> shared_ptr" where
  "owning a = \<lparr>get = Some a, owns = [a]\<rparr>"

text \<open>
  \<open>wrap(p, own)\<close>: an owning pointer, or one with a deleter that does nothing.
\<close>

definition wrap :: "addr option \<Rightarrow> bool \<Rightarrow> shared_ptr" where
  "wrap p own =
     (if own then \<lparr>get = p, owns = (case p of None \<Rightarrow> [] | Some a \<Rightarrow> [a])\<rparr>
      else \<lparr>get = p, owns = []\<rparr>)"

text \<open>
  Modelled from the spec: \<open>make_shared_composite_resource\<close> (\<open>composite_resource.h\<close>) is
  not part of the sources at hand. By the spec it yields a handle to the first resource
  that also keeps the upstream handles alive, the pool being destroyed before its upstream.
\<close>

definition make_shared_composite_resource :: "shared_ptr \<Rightarrow> shared_ptr \<Rightarrow> shared_ptr" where
  "make_shared_composite_resource rsrc upstream =
     \<lparr>get = get rsrc, owns = owns rsrc @ owns upstream\<rparr>"

text \<open>
  What a call can throw. \<open>out_of_range d n\<close> is the \<open>std::out_of_range\<close> of
  \<open>CheckDeviceIndex\<close>, whose message is built from the offending index \<open>d\<close> and the bound
  \<open>n\<close> ("Shoud be 0 <= device\_id < n or negative for current device"). \<open>runtime_error\<close>
  is whatever a device-runtime call or a constructor throws. The last three are not
  exceptions but undefined behaviour of the C++ program, kept visible as results:
  an array read past its end, the use of an object that is not alive, and
  \<open>new T[n]\<close> with a negative \<open>n\<close> (which throws \<open>std::bad_array_new_length\<close>).
\<close>

datatype error =
    out_of_range int int
  | runtime_error nat
  | bad_array_new_length
  | index_past_end
  | dangling_pointer

datatype cudaError = cudaSuccess | cudaErrorCudartUnloading | cudaErrorOther nat

subsection \<open>The platform\<close>

text \<open>
  The four \<open>static CUDARTLoader\<close> objects of the file: \<open>init_cuda\<close> in the pinned, the
  managed and the device specialisation of \<open>ShareDefaultResourceImpl\<close> (lines 227, 242
  and 262) and \<open>CUDAInit\<close> in \<open>CreateDefaultDeviceResource\<close> (line 167).
\<close>

datatype static_loader = loader_pinned | loader_managed | loader_device | loader_create

text \<open>
  The calls of this file that may throw: the device-runtime queries behind \<open>CUDA_CALL\<close>,
  the constructor of \<open>DeviceGuard\<close>, \<open>CUDAEventPool::instance()\<close>, and the constructors
  reached through \<open>std::make_shared\<close>. No function of the file loops over such a call, so
  a call is named by its place in the source, and by the static being initialised when it
  is made inside the constructor of \<open>CUDARTLoader\<close>. Two places share a name only where
  no public function reaches both:
  \<^item> \<open>cudaGetDevice\<close>: the query that stands in for a negative index, line 254 in
    \<open>ShareDefaultDeviceResourceImpl\<close> and line 308 in \<open>SetDefaultDeviceResource\<close>;
  \<^item> \<open>cudaGetDevice_of_kind\<close>: line 330, in \<open>SetDefaultResource<memory_kind::device>\<close>;
  \<^item> \<open>cudaGetDevice_in_create\<close>: line 170, in \<open>CreateDefaultDeviceResource\<close>;
  \<^item> \<open>cudaGetDevice_in_loader\<close> and \<open>DeviceGuard_in_loader\<close>: lines 137 and 138, in
    the constructor of \<open>CUDARTLoader\<close>;
  \<^item> \<open>cudaGetDeviceCount\<close>: line 81; \<open>DeviceGuard_ctor\<close>: line 261;
    \<open>CUDAEventPool_instance\<close>: line 168;
  \<^item> \<open>make_malloc\<close>: line 130; \<open>make_cuda_malloc\<close>: lines 172 and 182, in different
    branches; \<open>make_pinned_malloc\<close>: lines 193 and 196, in different branches;
    \<open>make_managed_malloc\<close>: line 204; \<open>make_async_pool_vm\<close>: line 178;
    \<open>make_async_pool\<close>: line 186 for device and line 199 for pinned memory.
\<close>

datatype rt_call =
    cudaGetDevice
  | cudaGetDevice_of_kind
  | cudaGetDevice_in_create
  | cudaGetDevice_in_loader static_loader
  | cudaGetDeviceCount
  | DeviceGuard_ctor
  | DeviceGuard_in_loader static_loader
  | CUDAEventPool_instance
  | make_malloc
  | make_cuda_malloc
  | make_pinned_malloc
  | make_managed_malloc
  | make_async_pool_vm
  | make_async_pool

text \<open>
  \<open>fails c\<close> is the exception call \<open>c\<close> throws, if any; each call has its own outcome, so
  that within one public call an early \<open>cudaGetDevice\<close> may succeed and a later one throw.
  \<open>device_count\<close> is what a successful \<open>cudaGetDeviceCount\<close> reports, \<open>last_error\<close>
  what \<open>cudaGetLastError\<close> returns.
  \<open>DALI_USE_CUDA_VM_MAP\<close> is the build macro and \<open>cuvm_IsSupported\<close> the result of
  \<open>cuvm::IsSupported()\<close>. \<open>atoi_overflow\<close> is what the C library's \<open>atoi\<close> returns for a
  number that does not fit in \<open>int\<close>, which the C standard leaves undefined.
\<close>

record runtime =
  getenv :: "string \<Rightarrow> string option"
  atoi_overflow :: "int \<Rightarrow> int"
  fails :: "rt_call \<Rightarrow> error option"
  device_count :: int
  last_error :: cudaError
  DALI_USE_CUDA_VM_MAP :: bool
  cuvm_IsSupported :: bool

subsection \<open>The state\<close>

text \<open>
  \<open>host\<close> to \<open>num_devices\<close> are the members of \<open>DefaultResources\<close>. The next group are the
  function-local statics: the resources created once (\<open>None\<close> until the initialiser has
  run; \<open>std::make_shared\<close> never yields null), the \<open>CUDARTLoader\<close> and \<open>AtScopeExit\<close>
  objects (\<open>True\<close> once initialised), the event pool singleton and the three cached flags.
  \<open>current_device\<close> is the device the runtime reports as current. \<open>heap\<close> holds every
  object ever made, an address being an index into it; \<open>destroyed\<close> lists, in order, the
  objects whose destructor has run; \<open>leaked\<close> are the pointers \<open>Abandon\<close> moved to storage
  that is never destroyed; \<open>held\<close> are the copies clients hold.
\<close>

record world =
  host :: shared_ptr
  pinned_async :: shared_ptr
  managed :: shared_ptr
  device :: "shared_ptr list option"
  num_devices :: int
  host_rsrc :: "addr option"
  pinned_upstream_plain :: "addr option"
  pinned_upstream :: "addr option"
  managed_rsrc :: "addr option"
  CUDAInit :: bool
  init_cuda_pinned :: bool
  init_cuda_managed :: bool
  init_cuda_device :: bool
  cleanup_pinned :: bool
  cleanup_managed :: bool
  cleanup_device :: bool
  event_pool :: bool
  UseDeviceMemoryPool_value :: "bool option"
  UsePinnedMemoryPool_value :: "bool option"
  UseVMM_value :: "bool option"
  current_device :: int
  heap :: "obj list"
  destroyed :: "addr list"
  leaked :: "shared_ptr list"
  held :: "shared_ptr list"

text \<open>The state of a process in which nothing of this file has run yet.\<close>

definition initial_world :: "int \<Rightarrow> world" where
  "initial_world dev =
     \<lparr>host = null_ptr, pinned_async = null_ptr, managed = null_ptr,
      device = None, num_devices = 0,
      host_rsrc = None, pinned_upstream_plain = None, pinned_upstream = None,
      managed_rsrc = None,
      CUDAInit = False, init_cuda_pinned = False, init_cuda_managed = False,
      init_cuda_device = False,
      cleanup_pinned = False, cleanup_managed = False, cleanup_device = False,
      event_pool = False,
      UseDeviceMemoryPool_value = None, UsePinnedMemoryPool_value = None,
      UseVMM_value = None,
      current_device = dev, heap = [], destroyed = [], leaked = [], held = []\<rparr>"

subsection \<open>Configuration flags\<close>

text \<open>
  \<open>atoi\<close> of the C library: white space is skipped, an optional sign is read, then decimal
  digits up to the first character that is not one. With no digit the result is 0.
\<close>

definition isspace :: "char \<Rightarrow> bool" where
  "isspace c = (c \<in> set [CHR '' '', CHR 0x09, CHR 0x0A, CHR 0x0B, CHR 0x0C, CHR 0x0D])"

definition isdigit :: "char \<Rightarrow> bool" where
  "isdigit c = (48 \<le> (of_char c :: nat) \<and> (of_char c :: nat) \<le> 57)"

fun digits_value :: "int \<Rightarrow> string \<Rightarrow> int" where
  "digits_value acc [] = acc"
| "digits_value acc (c # cs) =
     (if isdigit c then digits_value (acc * 10 + (of_char c - 48)) cs else acc)"

definition INT_MAX :: int where "INT_MAX = 2147483647"
definition INT_MIN :: int where "INT_MIN = - 2147483648"

definition atoi :: "runtime \<Rightarrow> string \<Rightarrow> int" where
  "atoi rt str =
     (let s = dropWhile isspace str;
          v = (case s of
                 [] \<Rightarrow> 0
               | c # cs \<Rightarrow>
                   if c = CHR ''-'' then - digits_value 0 cs
                   else if c = CHR ''+'' then digits_value 0 cs
                   else digits_value 0 s)
      in if INT_MIN \<le> v \<and> v \<le> INT_MAX then v else atoi_overflow rt v)"

text \<open>
  The initialiser shared by the three flags:
  \<open>const char *env = std::getenv(name); return !env || atoi(env);\<close>
\<close>

definition env_flag :: "runtime \<Rightarrow> string \<Rightarrow> bool" where
  "env_flag rt name =
     (case getenv rt name of None \<Rightarrow> True | Some env \<Rightarrow> atoi rt env \<noteq> 0)"

text \<open>
  Each flag is a \<open>static bool value\<close> initialised by the lambda on the first call.
\<close>

definition UseDeviceMemoryPool :: "runtime \<Rightarrow> world \<Rightarrow> bool \<times> world" where
  "UseDeviceMemoryPool rt s =
     (case UseDeviceMemoryPool_value s of
        Some v \<Rightarrow> (v, s)
      | None \<Rightarrow>
          (let v = env_flag rt ''DALI_USE_DEVICE_MEM_POOL''
           in (v, s\<lparr>UseDeviceMemoryPool_value := Some v\<rparr>)))"

definition UsePinnedMemoryPool :: "runtime \<Rightarrow> world \<Rightarrow> bool \<times> world" where
  "UsePinnedMemoryPool rt s =
     (case UsePinnedMemoryPool_value s of
        Some v \<Rightarrow> (v, s)
      | None \<Rightarrow>
          (let v = env_flag rt ''DALI_USE_PINNED_MEM_POOL''
           in (v, s\<lparr>UsePinnedMemoryPool_value := Some v\<rparr>)))"

definition UseVMM :: "runtime \<Rightarrow> world \<Rightarrow> bool \<times> world" where
  "UseVMM rt s =
     (case UseVMM_value s of
        Some v \<Rightarrow> (v, s)
      | None \<Rightarrow>
          (let v = env_flag rt ''DALI_USE_VMM''
           in (v, s\<lparr>UseVMM_value := Some v\<rparr>)))"

subsection \<open>Shared ownership\<close>

text \<open>
  The \<open>shared_ptr\<close> held by a function-local static that has been initialised.
\<close>

definition static_ptr :: "addr option \<Rightarrow> shared_ptr" where
  "static_ptr x = (case x of None \<Rightarrow> null_ptr | Some a \<Rightarrow> owning a)"

text \<open>
  Every \<open>shared_ptr\<close> that exists in a state: the slots of the registry, the statics,
  the abandoned pointers and the copies held by clients.
\<close>

definition live_ptrs :: "world \<Rightarrow> shared_ptr list" where
  "live_ptrs s =
     [host s, pinned_async s, managed s]
     @ (case device s of None \<Rightarrow> [] | Some t \<Rightarrow> t)
     @ map static_ptr [host_rsrc s, pinned_upstream_plain s, pinned_upstream s, managed_rsrc s]
     @ leaked s @ held s"

text \<open>
  The destructor of a \<open>shared_ptr\<close> that is no longer part of the state: each object it
  shares and no remaining pointer shares is destroyed, in the order of \<open>owns\<close>.
\<close>

definition destroy_ptr :: "shared_ptr \<Rightarrow> world \<Rightarrow> world" where
  "destroy_ptr p s =
     s\<lparr>destroyed := destroyed s
          @ filter (\<lambda>a. a \<notin> set (concat (map owns (live_ptrs s))) \<and> a \<notin> set (destroyed s))
              (remdups (owns p))\<rparr>"

text \<open>An object can be used when it has been made and its destructor has not run.\<close>

definition alive :: "world \<Rightarrow> addr \<Rightarrow> bool" where
  "alive s a = (a < length (heap s) \<and> a \<notin> set (destroyed s))"

text \<open>
  \<open>std::make_shared<T>(...)\<close>: the constructor may throw; otherwise the new object is
  placed at the next free address.
\<close>

definition make_shared :: "runtime \<Rightarrow> rt_call \<Rightarrow> resource_type \<Rightarrow> world \<Rightarrow> (error + shared_ptr) \<times> world" where
  "make_shared rt c t s =
     (case fails rt c of
        Some e \<Rightarrow> (Inl e, s)
      | None \<Rightarrow> (Inr (owning (length (heap s))), s\<lparr>heap := heap s @ [\<lparr>rtype = t, cached = 0\<rparr>]\<rparr>))"

text \<open>Assignment to a slot: the previous value of the slot is destroyed.\<close>

definition assign_host :: "shared_ptr \<Rightarrow> world \<Rightarrow> world" where
  "assign_host p s = destroy_ptr (host s) (s\<lparr>host := p\<rparr>)"

definition assign_pinned_async :: "shared_ptr \<Rightarrow> world \<Rightarrow> world" where
  "assign_pinned_async p s = destroy_ptr (pinned_async s) (s\<lparr>pinned_async := p\<rparr>)"

definition assign_managed :: "shared_ptr \<Rightarrow> world \<Rightarrow> world" where
  "assign_managed p s = destroy_ptr (managed s) (s\<lparr>managed := p\<rparr>)"

text \<open>
  \<open>g_resources.device[i] = p\<close>. The callers have sized the table and checked the index;
  without a table there is nothing to assign to.
\<close>

definition assign_device :: "nat \<Rightarrow> shared_ptr \<Rightarrow> world \<Rightarrow> world" where
  "assign_device i p s =
     (case device s of
        None \<Rightarrow> s
      | Some t \<Rightarrow> destroy_ptr (t ! i) (s\<lparr>device := Some (t[i := p])\<rparr>))"

text \<open>
  The destructor of the array of a device table: the elements are destroyed last to first.
\<close>

definition destroy_table :: "shared_ptr list \<Rightarrow> world \<Rightarrow> world" where
  "destroy_table t s = fold destroy_ptr (rev t) s"

subsection \<open>The members of \<open>DefaultResources\<close>\<close>

text \<open>
  \<open>InitDeviceResArray\<close>: the table is sized once, to the device count reported then.
\<close>

definition InitDeviceResArray :: "runtime \<Rightarrow> world \<Rightarrow> (error + unit) \<times> world" where
  "InitDeviceResArray rt s =
     (case device s of
        Some t \<Rightarrow> (Inr (), s)
      | None \<Rightarrow>
          (case fails rt cudaGetDeviceCount of
             Some e \<Rightarrow> (Inl e, s)
           | None \<Rightarrow>
               (let ndevs = device_count rt
                in if ndevs < 0 then (Inl bad_array_new_length, s)
                   else (Inr (), s\<lparr>num_devices := ndevs,
                                   device := Some (replicate (nat ndevs) null_ptr)\<rparr>))))"

definition CheckDeviceIndex :: "int \<Rightarrow> world \<Rightarrow> error option" where
  "CheckDeviceIndex device_id s =
     (if device_id < 0 \<or> device_id \<ge> num_devices s
      then Some (out_of_range device_id (num_devices s)) else None)"

text \<open>
  \<open>Abandon\<close> moves the pointer to storage that is never destroyed and leaves the slot
  null; for the table, \<open>unique_ptr::release\<close> gives up the array with all its elements.
  \<open>Release\<close> abandons when the runtime is unloading and assigns an empty pointer otherwise.
\<close>

definition ReleaseHost :: "runtime \<Rightarrow> world \<Rightarrow> world" where
  "ReleaseHost rt s =
     (if last_error rt = cudaErrorCudartUnloading
      then s\<lparr>host := null_ptr, leaked := leaked s @ [host s]\<rparr>
      else assign_host null_ptr s)"

definition ReleasePinned :: "runtime \<Rightarrow> world \<Rightarrow> world" where
  "ReleasePinned rt s =
     (if last_error rt = cudaErrorCudartUnloading
      then s\<lparr>pinned_async := null_ptr, leaked := leaked s @ [pinned_async s]\<rparr>
      else assign_pinned_async null_ptr s)"

definition ReleaseManaged :: "runtime \<Rightarrow> world \<Rightarrow> world" where
  "ReleaseManaged rt s =
     (if last_error rt = cudaErrorCudartUnloading
      then s\<lparr>managed := null_ptr, leaked := leaked s @ [managed s]\<rparr>
      else assign_managed null_ptr s)"

definition ReleaseDevice :: "runtime \<Rightarrow> world \<Rightarrow> world" where
  "ReleaseDevice rt s =
     (case device s of
        None \<Rightarrow> s
      | Some t \<Rightarrow>
          if last_error rt = cudaErrorCudartUnloading
          then s\<lparr>device := None, leaked := leaked s @ t\<rparr>
          else destroy_table t (s\<lparr>device := None\<rparr>))"

text \<open>\<open>~DefaultResources\<close>.\<close>

definition DefaultResources_dtor :: "runtime \<Rightarrow> world \<Rightarrow> world" where
  "DefaultResources_dtor rt s =
     ReleaseHost rt (ReleaseManaged rt (ReleaseDevice rt (ReleasePinned rt s)))"

subsection \<open>Construction of the default resources\<close>

text \<open>
  Modelled from the spec: \<open>DeviceGuard\<close> (\<open>device_guard.h\<close>) and
  \<open>CUDAEventPool::instance()\<close> (\<open>cuda_event_pool.h\<close>) are not part of the sources at
  hand. The guard makes a device current for the length of a scope and restores the
  previous one when the scope is left; its constructor may throw. The event pool is a
  singleton that is initialised by the first call, which may throw, and only returned by
  the later ones.

  The constructor of \<open>CUDARTLoader\<close>, run for the static \<open>st\<close>, asks for the current
  device and guards it. The guard switches to the device that is already current, so only
  a failure is visible.
\<close>

definition CUDARTLoader :: "runtime \<Rightarrow> static_loader \<Rightarrow> error option" where
  "CUDARTLoader rt st =
     (case fails rt (cudaGetDevice_in_loader st) of
        Some e \<Rightarrow> Some e
      | None \<Rightarrow> fails rt (DeviceGuard_in_loader st))"

definition CreateDefaultHostResource :: "runtime \<Rightarrow> world \<Rightarrow> (error + shared_ptr) \<times> world" where
  "CreateDefaultHostResource rt s =
     (case host_rsrc s of
        Some a \<Rightarrow> (Inr (owning a), s)
      | None \<Rightarrow>
          (case make_shared rt make_malloc malloc_memory_resource s of
             (Inl e, s1) \<Rightarrow> (Inl e, s1)
           | (Inr rsrc, s1) \<Rightarrow> (Inr rsrc, s1\<lparr>host_rsrc := get rsrc\<rparr>)))"

definition CreateDefaultDeviceResource :: "runtime \<Rightarrow> world \<Rightarrow> (error + shared_ptr) \<times> world" where
  "CreateDefaultDeviceResource rt s =
     (case (if CUDAInit s then None else CUDARTLoader rt loader_create) of
        Some e \<Rightarrow> (Inl e, s)
      | None \<Rightarrow>
     (let s1 = s\<lparr>CUDAInit := True\<rparr> in
      case (if event_pool s1 then None else fails rt CUDAEventPool_instance) of
        Some e \<Rightarrow> (Inl e, s1)
      | None \<Rightarrow>
     (let s2 = s1\<lparr>event_pool := True\<rparr> in
      case fails rt cudaGetDevice_in_create of
        Some e \<Rightarrow> (Inl e, s2)
      | None \<Rightarrow>
     (let device_id = current_device s2;
          (use_pool, s3) = UseDeviceMemoryPool rt s2
      in if \<not> use_pool
         then make_shared rt make_cuda_malloc (cuda_malloc_memory_resource device_id) s3
         else
           (let (vmm, s4) = (if DALI_USE_CUDA_VM_MAP rt \<and> cuvm_IsSupported rt
                             then UseVMM rt s3 else (False, s3))
            in if vmm
               then make_shared rt make_async_pool_vm async_pool_vm_resource s4
               else
                 (case make_shared rt make_cuda_malloc
                         (cuda_malloc_memory_resource device_id) s4 of
                    (Inl e, s5) \<Rightarrow> (Inl e, s5)
                  | (Inr upstream, s5) \<Rightarrow>
                      (case make_shared rt make_async_pool
                              (async_pool_resource Device (get upstream)) s5 of
                         (Inl e, s6) \<Rightarrow> (Inl e, destroy_ptr upstream s6)
                       | (Inr rsrc, s6) \<Rightarrow>
                           (Inr (make_shared_composite_resource rsrc upstream), s6))))))))"

definition CreateDefaultPinnedResource :: "runtime \<Rightarrow> world \<Rightarrow> (error + shared_ptr) \<times> world" where
  "CreateDefaultPinnedResource rt s =
     (let (use_pool, s1) = UsePinnedMemoryPool rt s
      in if \<not> use_pool
         then
           (case pinned_upstream_plain s1 of
              Some a \<Rightarrow> (Inr (owning a), s1)
            | None \<Rightarrow>
                (case make_shared rt make_pinned_malloc pinned_malloc_memory_resource s1 of
                   (Inl e, s2) \<Rightarrow> (Inl e, s2)
                 | (Inr upstream, s2) \<Rightarrow>
                     (Inr upstream, s2\<lparr>pinned_upstream_plain := get upstream\<rparr>)))
         else
           (case (case pinned_upstream s1 of
                    Some a \<Rightarrow> (Inr (owning a), s1)
                  | None \<Rightarrow>
                      (case make_shared rt make_pinned_malloc pinned_malloc_memory_resource s1 of
                         (Inl e, s2) \<Rightarrow> (Inl e, s2)
                       | (Inr upstream, s2) \<Rightarrow>
                           (Inr upstream, s2\<lparr>pinned_upstream := get upstream\<rparr>))) of
              (Inl e, s2) \<Rightarrow> (Inl e, s2)
            | (Inr upstream, s2) \<Rightarrow>
                (case make_shared rt make_async_pool
                        (async_pool_resource Pinned (get upstream)) s2 of
                   (Inl e, s3) \<Rightarrow> (Inl e, s3)
                 | (Inr rsrc, s3) \<Rightarrow>
                     (Inr (make_shared_composite_resource rsrc upstream), s3))))"

definition CreateDefaultManagedResource :: "runtime \<Rightarrow> world \<Rightarrow> (error + shared_ptr) \<times> world" where
  "CreateDefaultManagedResource rt s =
     (case managed_rsrc s of
        Some a \<Rightarrow> (Inr (owning a), s)
      | None \<Rightarrow>
          (case make_shared rt make_managed_malloc managed_malloc_memory_resource s of
             (Inl e, s1) \<Rightarrow> (Inl e, s1)
           | (Inr rsrc, s1) \<Rightarrow> (Inr rsrc, s1\<lparr>managed_rsrc := get rsrc\<rparr>)))"

subsection \<open>Lazy construction: \<open>ShareDefaultResourceImpl\<close>\<close>

text \<open>
  Each function tests the slot, takes the lock and tests it again. In a sequential run the
  second test sees what the first saw, so the model tests once.
\<close>

definition ShareDefaultResourceImpl_host :: "runtime \<Rightarrow> world \<Rightarrow> (error + shared_ptr) \<times> world" where
  "ShareDefaultResourceImpl_host rt s =
     (if get (host s) = None
      then (case CreateDefaultHostResource rt s of
              (Inl e, s1) \<Rightarrow> (Inl e, s1)
            | (Inr p, s1) \<Rightarrow> (Inr p, assign_host p s1))
      else (Inr (host s), s))"

definition ShareDefaultResourceImpl_pinned :: "runtime \<Rightarrow> world \<Rightarrow> (error + shared_ptr) \<times> world" where
  "ShareDefaultResourceImpl_pinned rt s =
     (if get (pinned_async s) = None
      then (case (if init_cuda_pinned s then None else CUDARTLoader rt loader_pinned) of
              Some e \<Rightarrow> (Inl e, s)
            | None \<Rightarrow>
                (case CreateDefaultPinnedResource rt (s\<lparr>init_cuda_pinned := True\<rparr>) of
                   (Inl e, s1) \<Rightarrow> (Inl e, s1)
                 | (Inr p, s1) \<Rightarrow> (Inr p, (assign_pinned_async p s1)\<lparr>cleanup_pinned := True\<rparr>)))
      else (Inr (pinned_async s), s))"

definition ShareDefaultResourceImpl_managed :: "runtime \<Rightarrow> world \<Rightarrow> (error + shared_ptr) \<times> world" where
  "ShareDefaultResourceImpl_managed rt s =
     (if get (managed s) = None
      then (case (if init_cuda_managed s then None else CUDARTLoader rt loader_managed) of
              Some e \<Rightarrow> (Inl e, s)
            | None \<Rightarrow>
                (case CreateDefaultManagedResource rt (s\<lparr>init_cuda_managed := True\<rparr>) of
                   (Inl e, s1) \<Rightarrow> (Inl e, s1)
                 | (Inr p, s1) \<Rightarrow> (Inr p, (assign_managed p s1)\<lparr>cleanup_managed := True\<rparr>)))
      else (Inr (managed s), s))"

text \<open>
  \<open>if (device_id < 0) CUDA_CALL(cudaGetDevice(&device_id));\<close>, the opening of the three
  functions that take a device index.
\<close>

definition current_if_negative :: "runtime \<Rightarrow> int \<Rightarrow> world \<Rightarrow> error + int" where
  "current_if_negative rt device_id s =
     (if device_id < 0
      then (case fails rt cudaGetDevice of Some e \<Rightarrow> Inl e | None \<Rightarrow> Inr (current_device s))
      else Inr device_id)"

text \<open>
  The second half of \<open>ShareDefaultDeviceResourceImpl\<close>, from the first test of
  \<open>g_resources.device[device_id]\<close> on: the table has been sized and the index checked.
  The \<open>DeviceGuard\<close> makes the device of the slot current while the resource is built and
  restores the previous device when the scope is left, also by an exception.
\<close>

definition device_get_or_create :: "runtime \<Rightarrow> int \<Rightarrow> world \<Rightarrow> (error + shared_ptr) \<times> world" where
  "device_get_or_create rt device_id s1 =
     (case device s1 of
        None \<Rightarrow> (Inl dangling_pointer, s1)
      | Some t \<Rightarrow>
          if length t \<le> nat device_id then (Inl index_past_end, s1)
          else if get (t ! nat device_id) = None
          then
            (case fails rt DeviceGuard_ctor of
               Some e \<Rightarrow> (Inl e, s1)
             | None \<Rightarrow>
            (let s2 = s1\<lparr>current_device := device_id\<rparr> in
             case (if init_cuda_device s2 then None else CUDARTLoader rt loader_device) of
               Some e \<Rightarrow> (Inl e, s2\<lparr>current_device := current_device s1\<rparr>)
             | None \<Rightarrow>
                 (case CreateDefaultDeviceResource rt (s2\<lparr>init_cuda_device := True\<rparr>) of
                    (Inl e, s3) \<Rightarrow> (Inl e, s3\<lparr>current_device := current_device s1\<rparr>)
                  | (Inr p, s3) \<Rightarrow>
                      (Inr p, (assign_device (nat device_id) p s3)
                                \<lparr>cleanup_device := True,
                                 current_device := current_device s1\<rparr>))))
          else (Inr (t ! nat device_id), s1))"

definition ShareDefaultDeviceResourceImpl :: "runtime \<Rightarrow> int \<Rightarrow> world \<Rightarrow> (error + shared_ptr) \<times> world" where
  "ShareDefaultDeviceResourceImpl rt device_id0 s =
     (case current_if_negative rt device_id0 s of
        Inl e \<Rightarrow> (Inl e, s)
      | Inr device_id \<Rightarrow>
     (case InitDeviceResArray rt s of
        (Inl e, s1) \<Rightarrow> (Inl e, s1)
      | (Inr u, s1) \<Rightarrow>
     (case CheckDeviceIndex device_id s1 of
        Some e \<Rightarrow> (Inl e, s1)
      | None \<Rightarrow> device_get_or_create rt device_id s1)))"

fun ShareDefaultResourceImpl :: "memory_kind \<Rightarrow> runtime \<Rightarrow> world \<Rightarrow> (error + shared_ptr) \<times> world" where
  "ShareDefaultResourceImpl Host rt s = ShareDefaultResourceImpl_host rt s"
| "ShareDefaultResourceImpl Pinned rt s = ShareDefaultResourceImpl_pinned rt s"
| "ShareDefaultResourceImpl Managed rt s = ShareDefaultResourceImpl_managed rt s"
| "ShareDefaultResourceImpl Device rt s = ShareDefaultDeviceResourceImpl rt (- 1) s"

subsection \<open>The public functions\<close>

text \<open>
  \<open>ShareDefaultResource\<close> and \<open>ShareDefaultDeviceResource\<close> return a copy of the slot,
  which the client then holds; \<open>GetDefaultResource\<close> and \<open>GetDefaultDeviceResource\<close> return
  the raw pointer.
\<close>

definition give :: "(error + shared_ptr) \<times> world \<Rightarrow> (error + shared_ptr) \<times> world" where
  "give r = (case r of (Inl e, s) \<Rightarrow> (Inl e, s) | (Inr p, s) \<Rightarrow> (Inr p, s\<lparr>held := p # held s\<rparr>))"

definition raw :: "(error + shared_ptr) \<times> world \<Rightarrow> (error + addr option) \<times> world" where
  "raw r = (case r of (Inl e, s) \<Rightarrow> (Inl e, s) | (Inr p, s) \<Rightarrow> (Inr (get p), s))"

definition ShareDefaultResource :: "memory_kind \<Rightarrow> runtime \<Rightarrow> world \<Rightarrow> (error + shared_ptr) \<times> world" where
  "ShareDefaultResource k rt s = give (ShareDefaultResourceImpl k rt s)"

definition GetDefaultResource :: "memory_kind \<Rightarrow> runtime \<Rightarrow> world \<Rightarrow> (error + addr option) \<times> world" where
  "GetDefaultResource k rt s = raw (ShareDefaultResourceImpl k rt s)"

definition ShareDefaultDeviceResource :: "runtime \<Rightarrow> int \<Rightarrow> world \<Rightarrow> (error + shared_ptr) \<times> world" where
  "ShareDefaultDeviceResource rt device_id s = give (ShareDefaultDeviceResourceImpl rt device_id s)"

definition GetDefaultDeviceResource :: "runtime \<Rightarrow> int \<Rightarrow> world \<Rightarrow> (error + addr option) \<times> world" where
  "GetDefaultDeviceResource rt device_id s = raw (ShareDefaultDeviceResourceImpl rt device_id s)"

text \<open>
  The overrides. The argument is a pointer of its own, passed by value: it ends in the
  slot, or is destroyed when the function throws. The overloads that take a raw pointer
  and an ownership flag pass \<open>wrap resource own\<close>.
\<close>

definition SetDefaultResource_host :: "shared_ptr \<Rightarrow> world \<Rightarrow> world" where
  "SetDefaultResource_host resource s = assign_host resource s"

definition SetDefaultResource_pinned :: "shared_ptr \<Rightarrow> world \<Rightarrow> world" where
  "SetDefaultResource_pinned resource s = assign_pinned_async resource s"

definition SetDefaultDeviceResource :: "runtime \<Rightarrow> int \<Rightarrow> shared_ptr \<Rightarrow> world \<Rightarrow> (error + unit) \<times> world" where
  "SetDefaultDeviceResource rt device_id0 resource s =
     (case current_if_negative rt device_id0 s of
        Inl e \<Rightarrow> (Inl e, destroy_ptr resource s)
      | Inr device_id \<Rightarrow>
     (case InitDeviceResArray rt s of
        (Inl e, s1) \<Rightarrow> (Inl e, destroy_ptr resource s1)
      | (Inr u, s1) \<Rightarrow>
     (case CheckDeviceIndex device_id s1 of
        Some e \<Rightarrow> (Inl e, destroy_ptr resource s1)
      | None \<Rightarrow>
     (case device s1 of
        None \<Rightarrow> (Inl dangling_pointer, s1)
      | Some t \<Rightarrow>
          if length t \<le> nat device_id then (Inl index_past_end, s1)
          else (Inr (), assign_device (nat device_id) resource s1)))))"

definition SetDefaultResource_device :: "runtime \<Rightarrow> shared_ptr \<Rightarrow> world \<Rightarrow> (error + unit) \<times> world" where
  "SetDefaultResource_device rt resource s =
     (case fails rt cudaGetDevice_of_kind of
        Some e \<Rightarrow> (Inl e, destroy_ptr resource s)
      | None \<Rightarrow> SetDefaultDeviceResource rt (current_device s) resource s)"

text \<open>\<open>_Test_FreeDeviceResources\<close>: the table is destroyed and its size forgotten.\<close>

definition Test_FreeDeviceResources :: "world \<Rightarrow> world" where
  "Test_FreeDeviceResources s =
     (case device s of
        None \<Rightarrow> s\<lparr>num_devices := 0\<rparr>
      | Some t \<Rightarrow> (destroy_table t (s\<lparr>device := None\<rparr>))\<lparr>num_devices := 0\<rparr>)"

subsection \<open>Releasing unused memory\<close>

text \<open>
  \<open>GetPoolInterface\<close> walks the chain of upstream resources. The loop has no bound, so the
  function is partial: \<open>None\<close> is a walk that never returns. Looking into an object that
  is not alive is undefined behaviour, reported as \<open>dangling_pointer\<close>.
\<close>

partial_function (option) GetPoolInterface :: "world \<Rightarrow> addr option \<Rightarrow> (error + addr option) option" where
  "GetPoolInterface s mr =
     (case mr of
        None \<Rightarrow> Some (Inr None)
      | Some a \<Rightarrow>
          if \<not> alive s a then Some (Inl dangling_pointer)
          else if is_pool_resource_base (rtype (heap s ! a)) then Some (Inr (Some a))
          else (case as_with_upstream (rtype (heap s ! a)) of
                  Some up \<Rightarrow> GetPoolInterface s up
                | None \<Rightarrow> Some (Inr None)))"

text \<open>
  Modelled from the spec: \<open>pool_resource_base::release_unused\<close> is not part of the sources
  at hand. By the spec it trims the pool: the unused memory the pool caches is given back.
\<close>

definition release_unused :: "addr \<Rightarrow> world \<Rightarrow> world" where
  "release_unused a s = s\<lparr>heap := (heap s)[a := (heap s ! a)\<lparr>cached := 0\<rparr>]\<rparr>"

text \<open>\<open>if (auto *pool = GetPoolInterface(mr)) pool->release_unused();\<close>\<close>

definition release_pool_of :: "addr option \<Rightarrow> world \<Rightarrow> (error + world) option" where
  "release_pool_of mr s =
     (case GetPoolInterface s mr of
        None \<Rightarrow> None
      | Some (Inl e) \<Rightarrow> Some (Inl e)
      | Some (Inr None) \<Rightarrow> Some (Inr s)
      | Some (Inr (Some pool)) \<Rightarrow> Some (Inr (release_unused pool s)))"

text \<open>
  The loop \<open>for (int i = 0, n = g_resources.num_devices; i < n; i++)\<close> over the table
  \<open>devs\<close>, from index \<open>i\<close> on.
\<close>

function release_devices :: "shared_ptr list \<Rightarrow> int \<Rightarrow> int \<Rightarrow> world \<Rightarrow> (error + world) option" where
  "release_devices devs i n s =
     (if i < n
      then (if i < 0 \<or> int (length devs) \<le> i then Some (Inl index_past_end)
            else (case release_pool_of (get (devs ! nat i)) s of
                    None \<Rightarrow> None
                  | Some (Inl e) \<Rightarrow> Some (Inl e)
                  | Some (Inr s1) \<Rightarrow> release_devices devs (i + 1) n s1))
      else Some (Inr s))"
  by pat_completeness auto
termination
  by (relation "measure (\<lambda>(devs, i, n, s). nat (n - i))") auto

definition ReleaseUnusedMemory :: "world \<Rightarrow> (error + world) option" where
  "ReleaseUnusedMemory s =
     (case (case device s of
              Some devs \<Rightarrow> release_devices devs 0 (num_devices s) s
            | None \<Rightarrow> Some (Inr s)) of
        None \<Rightarrow> None
      | Some (Inl e) \<Rightarrow> Some (Inl e)
      | Some (Inr s1) \<Rightarrow> release_pool_of (get (pinned_async s1)) s1)"

subsection \<open>Vocabulary of the statements\<close>

text \<open>
  A platform on which no call fails: \<open>env\<close> lists the environment variables that are
  set, \<open>n\<close> is the number of devices.
\<close>

definition platform :: "(string \<times> string) list \<Rightarrow> int \<Rightarrow> runtime" where
  "platform env n =
     \<lparr>getenv = map_of env, atoi_overflow = (\<lambda>v. v), fails = (\<lambda>c. None),
      device_count = n, last_error = cudaSuccess,
      DALI_USE_CUDA_VM_MAP = True, cuvm_IsSupported = True\<rparr>"

text \<open>The same platform, on which call \<open>c\<close> throws a runtime error with code \<open>n\<close>.\<close>

definition platform_failing :: "rt_call \<Rightarrow> nat \<Rightarrow> (string \<times> string) list \<Rightarrow> int \<Rightarrow> runtime" where
  "platform_failing c n env k =
     (platform env k)\<lparr>fails := (\<lambda>c'. if c' = c then Some (runtime_error n) else None)\<rparr>"

text \<open>The three flags under one name.\<close>

datatype flag = DeviceMemPool | PinnedMemPool | VMM

fun flag_name :: "flag \<Rightarrow> string" where
  "flag_name DeviceMemPool = ''DALI_USE_DEVICE_MEM_POOL''"
| "flag_name PinnedMemPool = ''DALI_USE_PINNED_MEM_POOL''"
| "flag_name VMM = ''DALI_USE_VMM''"

fun flag_value :: "flag \<Rightarrow> world \<Rightarrow> bool option" where
  "flag_value DeviceMemPool s = UseDeviceMemoryPool_value s"
| "flag_value PinnedMemPool s = UsePinnedMemoryPool_value s"
| "flag_value VMM s = UseVMM_value s"

fun use_flag :: "flag \<Rightarrow> runtime \<Rightarrow> world \<Rightarrow> bool \<times> world" where
  "use_flag DeviceMemPool rt s = UseDeviceMemoryPool rt s"
| "use_flag PinnedMemPool rt s = UsePinnedMemoryPool rt s"
| "use_flag VMM rt s = UseVMM rt s"

text \<open>
  A static of \<open>CreateDefaultPinnedResource\<close> that has been initialised holds the plain
  pinned allocator its initialiser made.
\<close>

definition is_pinned_malloc :: "world \<Rightarrow> addr option \<Rightarrow> bool" where
  "is_pinned_malloc s x =
     (case x of
        None \<Rightarrow> True
      | Some a \<Rightarrow> a < length (heap s) \<and> rtype (heap s ! a) = pinned_malloc_memory_resource)"

definition pinned_statics_ok :: "world \<Rightarrow> bool" where
  "pinned_statics_ok s =
     (is_pinned_malloc s (pinned_upstream_plain s) \<and> is_pinned_malloc s (pinned_upstream s))"

text \<open>The value a flag has when it is asked for in state \<open>s\<close> on platform \<open>rt\<close>.\<close>

definition flag_now :: "flag \<Rightarrow> runtime \<Rightarrow> world \<Rightarrow> bool" where
  "flag_now f rt s =
     (case flag_value f s of Some v \<Rightarrow> v | None \<Rightarrow> env_flag rt (flag_name f))"

text \<open>
  What a request names: a memory kind, or the device memory of a given index. The spec's
  \<open>share_default\<close>, \<open>get_default\<close> and \<open>set_default\<close> are the public functions above.
  There is no override for managed memory in this file.
\<close>

datatype target = Kind memory_kind | DeviceIndex int

fun share_default :: "target \<Rightarrow> runtime \<Rightarrow> world \<Rightarrow> (error + shared_ptr) \<times> world" where
  "share_default (Kind k) rt s = ShareDefaultResource k rt s"
| "share_default (DeviceIndex d) rt s = ShareDefaultDeviceResource rt d s"

fun get_default :: "target \<Rightarrow> runtime \<Rightarrow> world \<Rightarrow> (error + addr option) \<times> world" where
  "get_default (Kind k) rt s = GetDefaultResource k rt s"
| "get_default (DeviceIndex d) rt s = GetDefaultDeviceResource rt d s"

fun set_default :: "target \<Rightarrow> runtime \<Rightarrow> shared_ptr \<Rightarrow> world \<Rightarrow> ((error + unit) \<times> world) option" where
  "set_default (Kind Host) rt p s = Some (Inr (), SetDefaultResource_host p s)"
| "set_default (Kind Pinned) rt p s = Some (Inr (), SetDefaultResource_pinned p s)"
| "set_default (Kind Device) rt p s = Some (SetDefaultResource_device rt p s)"
| "set_default (Kind Managed) rt p s = None"
| "set_default (DeviceIndex d) rt p s = Some (SetDefaultDeviceResource rt d p s)"

text \<open>The targets that are resolved through the current device.\<close>

fun uses_current_device :: "target \<Rightarrow> bool" where
  "uses_current_device (Kind k) = (k = Device)"
| "uses_current_device (DeviceIndex d) = (d < 0)"

text \<open>
  The slot a target denotes in a state, if there is one: for device memory the table must
  have been sized and the index, or the current device in its place, must lie within it.
\<close>

definition device_slot :: "int \<Rightarrow> world \<Rightarrow> shared_ptr option" where
  "device_slot d s =
     (case device s of
        None \<Rightarrow> None
      | Some t \<Rightarrow>
          if 0 \<le> d \<and> d < num_devices s \<and> nat d < length t then Some (t ! nat d) else None)"

fun slot_of :: "target \<Rightarrow> world \<Rightarrow> shared_ptr option" where
  "slot_of (Kind Host) s = Some (host s)"
| "slot_of (Kind Pinned) s = Some (pinned_async s)"
| "slot_of (Kind Managed) s = Some (managed s)"
| "slot_of (Kind Device) s = device_slot (current_device s) s"
| "slot_of (DeviceIndex d) s = device_slot (if d < 0 then current_device s else d) s"

text \<open>
  The error a sequence of calls ends with: that of the first call that throws.
\<close>

fun first_failure :: "runtime \<Rightarrow> rt_call list \<Rightarrow> error option" where
  "first_failure rt [] = None"
| "first_failure rt (c # cs) =
     (case fails rt c of Some e \<Rightarrow> Some e | None \<Rightarrow> first_failure rt cs)"

text \<open>
  The calls that \<open>share_default\<close> makes, in their order in the source, when the slot it is
  asked for is empty: the calls of a \<open>CUDARTLoader\<close> static that has not been initialised,
  the calls of each of the four \<open>CreateDefault...Resource\<close> functions, which depend on the
  statics already initialised and on the flags, and for device memory the query for a
  negative index, the count of devices while the table has no size, and the guard.
\<close>

definition loader_calls :: "static_loader \<Rightarrow> bool \<Rightarrow> rt_call list" where
  "loader_calls st initialised =
     (if initialised then [] else [cudaGetDevice_in_loader st, DeviceGuard_in_loader st])"

definition host_calls :: "world \<Rightarrow> rt_call list" where
  "host_calls s = (if host_rsrc s = None then [make_malloc] else [])"

definition managed_calls :: "world \<Rightarrow> rt_call list" where
  "managed_calls s = (if managed_rsrc s = None then [make_managed_malloc] else [])"

definition pinned_calls :: "runtime \<Rightarrow> world \<Rightarrow> rt_call list" where
  "pinned_calls rt s =
     (if flag_now PinnedMemPool rt s
      then (if pinned_upstream s = None then [make_pinned_malloc] else []) @ [make_async_pool]
      else (if pinned_upstream_plain s = None then [make_pinned_malloc] else []))"

definition device_calls :: "runtime \<Rightarrow> world \<Rightarrow> rt_call list" where
  "device_calls rt s =
     loader_calls loader_create (CUDAInit s)
     @ (if event_pool s then [] else [CUDAEventPool_instance])
     @ [cudaGetDevice_in_create]
     @ (if \<not> flag_now DeviceMemPool rt s then [make_cuda_malloc]
        else if DALI_USE_CUDA_VM_MAP rt \<and> cuvm_IsSupported rt \<and> flag_now VMM rt s
        then [make_async_pool_vm]
        else [make_cuda_malloc, make_async_pool])"

definition device_slot_calls :: "int \<Rightarrow> runtime \<Rightarrow> world \<Rightarrow> rt_call list" where
  "device_slot_calls d rt s =
     (if d < 0 then [cudaGetDevice] else [])
     @ (if device s = None then [cudaGetDeviceCount] else [])
     @ [DeviceGuard_ctor]
     @ loader_calls loader_device (init_cuda_device s)
     @ device_calls rt s"

fun share_calls :: "target \<Rightarrow> runtime \<Rightarrow> world \<Rightarrow> rt_call list" where
  "share_calls (Kind Host) rt s = host_calls s"
| "share_calls (Kind Pinned) rt s =
     loader_calls loader_pinned (init_cuda_pinned s) @ pinned_calls rt s"
| "share_calls (Kind Managed) rt s =
     loader_calls loader_managed (init_cuda_managed s) @ managed_calls s"
| "share_calls (Kind Device) rt s = device_slot_calls (- 1) rt s"
| "share_calls (DeviceIndex d) rt s = device_slot_calls d rt s"

text \<open>
  The state with the device table sized as \<open>InitDeviceResArray\<close> sizes it on platform
  \<open>rt\<close>; a table that has a size keeps it.
\<close>

definition sized :: "runtime \<Rightarrow> world \<Rightarrow> world" where
  "sized rt s =
     (case device s of
        Some t \<Rightarrow> s
      | None \<Rightarrow> s\<lparr>num_devices := device_count rt,
                   device := Some (replicate (nat (device_count rt)) null_ptr)\<rparr>)"

text \<open>A sequence of calls of the same function, one platform per call.\<close>

fun repeat_calls :: "(runtime \<Rightarrow> world \<Rightarrow> 'a \<times> world) \<Rightarrow> runtime list \<Rightarrow> world \<Rightarrow> 'a list \<times> world" where
  "repeat_calls f [] s = ([], s)"
| "repeat_calls f (rt # rts) s =
     (let (r, s1) = f rt s; (rs, s2) = repeat_calls f rts s1 in (r # rs, s2))"

text \<open>
  The size recorded for the device table is the length of the table. Every function of this
  file keeps it so.
\<close>

definition table_ok :: "world \<Rightarrow> bool" where
  "table_ok s = (case device s of None \<Rightarrow> True | Some t \<Rightarrow> num_devices s = int (length t))"

text \<open>\<open>Release\<close> for the slot, or the table, of a kind.\<close>

fun Release :: "memory_kind \<Rightarrow> runtime \<Rightarrow> world \<Rightarrow> world" where
  "Release Host rt s = ReleaseHost rt s"
| "Release Pinned rt s = ReleasePinned rt s"
| "Release Managed rt s = ReleaseManaged rt s"
| "Release Device rt s = ReleaseDevice rt s"


text \<open>
  A chain of upstream resources that ends within \<open>n\<close> steps: every stage is alive, and
  the walk stops at a pool, at a resource without an upstream, or at a null upstream.
\<close>

fun chain_ends :: "nat \<Rightarrow> world \<Rightarrow> addr option \<Rightarrow> bool" where
  "chain_ends n s None = True"
| "chain_ends 0 s (Some a) = False"
| "chain_ends (Suc n) s (Some a) =
     (alive s a \<and>
      (is_pool_resource_base (rtype (heap s ! a)) \<or>
       (case as_with_upstream (rtype (heap s ! a)) of
          None \<Rightarrow> True
        | Some up \<Rightarrow> chain_ends n s up)))"

text \<open>
  The pointers \<open>ReleaseUnusedMemory\<close> looks at, and the states in which each of them
  starts a chain that ends. A chain without a repeated stage has at most as many stages
  as there are objects.
\<close>

definition trimmed_ptrs :: "world \<Rightarrow> shared_ptr list" where
  "trimmed_ptrs s = (case device s of None \<Rightarrow> [] | Some t \<Rightarrow> t) @ [pinned_async s]"

definition chains_end :: "world \<Rightarrow> bool" where
  "chains_end s = list_all (\<lambda>p. chain_ends (length (heap s)) s (get p)) (trimmed_ptrs s)"

text \<open>
  The spec's \<open>find_pool\<close>: the first stage of a chain that exposes the pool capability, if
  the walk meets one within \<open>n\<close> steps before the chain ends.
\<close>

fun find_pool :: "nat \<Rightarrow> world \<Rightarrow> addr option \<Rightarrow> addr option" where
  "find_pool n s None = None"
| "find_pool 0 s (Some a) = None"
| "find_pool (Suc n) s (Some a) =
     (if is_pool_resource_base (rtype (heap s ! a)) then Some a
      else (case as_with_upstream (rtype (heap s ! a)) of
              None \<Rightarrow> None
            | Some up \<Rightarrow> find_pool n s up))"

text \<open>
  The pools behind the device pointers and the pinned pointer, and the state in which
  exactly these pools have been trimmed.
\<close>

definition pools :: "world \<Rightarrow> addr list" where
  "pools s = List.map_filter (\<lambda>p. find_pool (length (heap s)) s (get p)) (trimmed_ptrs s)"

definition trim :: "addr set \<Rightarrow> world \<Rightarrow> world" where
  "trim P s =
     s\<lparr>heap := map (\<lambda>a. if a \<in> P then (heap s ! a)\<lparr>cached := 0\<rparr> else heap s ! a)
                  [0..<length (heap s)]\<rparr>"

definition trim_pools :: "world \<Rightarrow> world" where
  "trim_pools s = trim (set (pools s)) s"

section \<open>Properties\<close>

subsection \<open>Flags\<close>

lemma UseDeviceMemoryPool_eq:
  "UseDeviceMemoryPool rt s =
     (flag_now DeviceMemPool rt s, s\<lparr>UseDeviceMemoryPool_value := Some (flag_now DeviceMemPool rt s)\<rparr>)"
  by (cases "UseDeviceMemoryPool_value s") (simp_all add: UseDeviceMemoryPool_def flag_now_def Let_def)

lemma UsePinnedMemoryPool_eq:
  "UsePinnedMemoryPool rt s =
     (flag_now PinnedMemPool rt s, s\<lparr>UsePinnedMemoryPool_value := Some (flag_now PinnedMemPool rt s)\<rparr>)"
  by (cases "UsePinnedMemoryPool_value s") (simp_all add: UsePinnedMemoryPool_def flag_now_def Let_def)

lemma UseVMM_eq:
  "UseVMM rt s = (flag_now VMM rt s, s\<lparr>UseVMM_value := Some (flag_now VMM rt s)\<rparr>)"
  by (cases "UseVMM_value s") (simp_all add: UseVMM_def flag_now_def Let_def)

lemma use_flag_eq: "fst (use_flag f rt s) = flag_now f rt s"
  by (cases f) (simp_all add: UseDeviceMemoryPool_eq UsePinnedMemoryPool_eq UseVMM_eq)

subsection \<open>Pointers\<close>

lemma get_owning [simp]: "get (owning a) = Some a" "owns (owning a) = [a]"
  by (simp_all add: owning_def)

lemma get_null [simp]: "get null_ptr = None" "owns null_ptr = []"
  by (simp_all add: null_ptr_def)

lemma get_composite [simp]:
  "get (make_shared_composite_resource p q) = get p"
  "owns (make_shared_composite_resource p q) = owns p @ owns q"
  by (simp_all add: make_shared_composite_resource_def)

subsection \<open>What construction leaves alone\<close>

lemma destroy_ptr_frame [simp]:
  "host (destroy_ptr p s) = host s"
  "pinned_async (destroy_ptr p s) = pinned_async s"
  "managed (destroy_ptr p s) = managed s"
  "device (destroy_ptr p s) = device s"
  "num_devices (destroy_ptr p s) = num_devices s"
  "current_device (destroy_ptr p s) = current_device s"
  "heap (destroy_ptr p s) = heap s"
  "leaked (destroy_ptr p s) = leaked s"
  "held (destroy_ptr p s) = held s"
  by (simp_all add: destroy_ptr_def)

lemma make_shared_frame [simp]:
  "host (snd (make_shared rt c t s)) = host s"
  "pinned_async (snd (make_shared rt c t s)) = pinned_async s"
  "managed (snd (make_shared rt c t s)) = managed s"
  "device (snd (make_shared rt c t s)) = device s"
  "num_devices (snd (make_shared rt c t s)) = num_devices s"
  "current_device (snd (make_shared rt c t s)) = current_device s"
  "destroyed (snd (make_shared rt c t s)) = destroyed s"
  "leaked (snd (make_shared rt c t s)) = leaked s"
  "held (snd (make_shared rt c t s)) = held s"
  by (simp_all add: make_shared_def split: option.split)

lemma CreateDefaultHostResource_frame [simp]:
  "host (snd (CreateDefaultHostResource rt s)) = host s"
  "pinned_async (snd (CreateDefaultHostResource rt s)) = pinned_async s"
  "managed (snd (CreateDefaultHostResource rt s)) = managed s"
  "device (snd (CreateDefaultHostResource rt s)) = device s"
  "num_devices (snd (CreateDefaultHostResource rt s)) = num_devices s"
  "current_device (snd (CreateDefaultHostResource rt s)) = current_device s"
  "destroyed (snd (CreateDefaultHostResource rt s)) = destroyed s"
  "leaked (snd (CreateDefaultHostResource rt s)) = leaked s"
  "held (snd (CreateDefaultHostResource rt s)) = held s"
  by (simp_all add: CreateDefaultHostResource_def make_shared_def split: option.split)

lemma CreateDefaultManagedResource_frame [simp]:
  "host (snd (CreateDefaultManagedResource rt s)) = host s"
  "pinned_async (snd (CreateDefaultManagedResource rt s)) = pinned_async s"
  "managed (snd (CreateDefaultManagedResource rt s)) = managed s"
  "device (snd (CreateDefaultManagedResource rt s)) = device s"
  "num_devices (snd (CreateDefaultManagedResource rt s)) = num_devices s"
  "current_device (snd (CreateDefaultManagedResource rt s)) = current_device s"
  "destroyed (snd (CreateDefaultManagedResource rt s)) = destroyed s"
  "leaked (snd (CreateDefaultManagedResource rt s)) = leaked s"
  "held (snd (CreateDefaultManagedResource rt s)) = held s"
  by (simp_all add: CreateDefaultManagedResource_def make_shared_def split: option.split)

lemma CreateDefaultPinnedResource_frame [simp]:
  "host (snd (CreateDefaultPinnedResource rt s)) = host s"
  "pinned_async (snd (CreateDefaultPinnedResource rt s)) = pinned_async s"
  "managed (snd (CreateDefaultPinnedResource rt s)) = managed s"
  "device (snd (CreateDefaultPinnedResource rt s)) = device s"
  "num_devices (snd (CreateDefaultPinnedResource rt s)) = num_devices s"
  "current_device (snd (CreateDefaultPinnedResource rt s)) = current_device s"
  "destroyed (snd (CreateDefaultPinnedResource rt s)) = destroyed s"
  "leaked (snd (CreateDefaultPinnedResource rt s)) = leaked s"
  "held (snd (CreateDefaultPinnedResource rt s)) = held s"
  by (simp_all add: CreateDefaultPinnedResource_def make_shared_def UsePinnedMemoryPool_eq
        split: option.split)

lemma CreateDefaultDeviceResource_frame [simp]:
  "host (snd (CreateDefaultDeviceResource rt s)) = host s"
  "pinned_async (snd (CreateDefaultDeviceResource rt s)) = pinned_async s"
  "managed (snd (CreateDefaultDeviceResource rt s)) = managed s"
  "device (snd (CreateDefaultDeviceResource rt s)) = device s"
  "num_devices (snd (CreateDefaultDeviceResource rt s)) = num_devices s"
  "current_device (snd (CreateDefaultDeviceResource rt s)) = current_device s"
  "leaked (snd (CreateDefaultDeviceResource rt s)) = leaked s"
  "held (snd (CreateDefaultDeviceResource rt s)) = held s"
  by (simp_all add: CreateDefaultDeviceResource_def make_shared_def
        UseDeviceMemoryPool_eq UseVMM_eq Let_def
        split: option.split)

subsection \<open>What construction returns\<close>

lemma CreateDefaultHostResource_get:
  "fst (CreateDefaultHostResource rt s) = Inr p \<Longrightarrow> get p \<noteq> None"
  by (auto simp add: CreateDefaultHostResource_def make_shared_def split: option.splits)

lemma CreateDefaultManagedResource_get:
  "fst (CreateDefaultManagedResource rt s) = Inr p \<Longrightarrow> get p \<noteq> None"
  by (auto simp add: CreateDefaultManagedResource_def make_shared_def split: option.splits)

lemma CreateDefaultPinnedResource_get:
  "fst (CreateDefaultPinnedResource rt s) = Inr p \<Longrightarrow> get p \<noteq> None"
  by (auto simp add: CreateDefaultPinnedResource_def make_shared_def UsePinnedMemoryPool_eq
        split: option.splits if_splits)

lemma CreateDefaultDeviceResource_get:
  "fst (CreateDefaultDeviceResource rt s) = Inr p \<Longrightarrow> get p \<noteq> None"
  by (auto simp add: CreateDefaultDeviceResource_def make_shared_def
        UseDeviceMemoryPool_eq UseVMM_eq Let_def
        split: option.splits if_splits)

lemma InitDeviceResArray_frame [simp]:
  "host (snd (InitDeviceResArray rt s)) = host s"
  "pinned_async (snd (InitDeviceResArray rt s)) = pinned_async s"
  "managed (snd (InitDeviceResArray rt s)) = managed s"
  "current_device (snd (InitDeviceResArray rt s)) = current_device s"
  "heap (snd (InitDeviceResArray rt s)) = heap s"
  "destroyed (snd (InitDeviceResArray rt s)) = destroyed s"
  "leaked (snd (InitDeviceResArray rt s)) = leaked s"
  "held (snd (InitDeviceResArray rt s)) = held s"
  by (simp_all add: InitDeviceResArray_def Let_def split: option.split)

lemma host_populated:
  "get (host s) \<noteq> None \<Longrightarrow> ShareDefaultResourceImpl_host rt s = (Inr (host s), s)"
  by (auto simp add: ShareDefaultResourceImpl_host_def)

lemma pinned_populated:
  "get (pinned_async s) \<noteq> None \<Longrightarrow> ShareDefaultResourceImpl_pinned rt s = (Inr (pinned_async s), s)"
  by (auto simp add: ShareDefaultResourceImpl_pinned_def)

lemma managed_populated:
  "get (managed s) \<noteq> None \<Longrightarrow> ShareDefaultResourceImpl_managed rt s = (Inr (managed s), s)"
  by (auto simp add: ShareDefaultResourceImpl_managed_def)

lemma Create_get:
  "CreateDefaultHostResource rt s = (Inr p, s1) \<Longrightarrow> get p \<noteq> None"
  "CreateDefaultPinnedResource rt s = (Inr p, s1) \<Longrightarrow> get p \<noteq> None"
  "CreateDefaultManagedResource rt s = (Inr p, s1) \<Longrightarrow> get p \<noteq> None"
  "CreateDefaultDeviceResource rt s = (Inr p, s1) \<Longrightarrow> get p \<noteq> None"
  using CreateDefaultHostResource_get [of rt s p] CreateDefaultPinnedResource_get [of rt s p]
    CreateDefaultManagedResource_get [of rt s p] CreateDefaultDeviceResource_get [of rt s p]
  by simp_all

lemma host_result:
  "fst (ShareDefaultResourceImpl_host rt s) = Inr p \<Longrightarrow>
   host (snd (ShareDefaultResourceImpl_host rt s)) = p \<and> get p \<noteq> None"
  by (auto simp: ShareDefaultResourceImpl_host_def assign_host_def
      dest: Create_get split: sum.splits prod.splits if_splits)

lemma pinned_result:
  "fst (ShareDefaultResourceImpl_pinned rt s) = Inr p \<Longrightarrow>
   pinned_async (snd (ShareDefaultResourceImpl_pinned rt s)) = p \<and> get p \<noteq> None"
  by (auto simp: ShareDefaultResourceImpl_pinned_def assign_pinned_async_def
      dest: Create_get split: sum.splits prod.splits if_splits option.splits)

lemma managed_result:
  "fst (ShareDefaultResourceImpl_managed rt s) = Inr p \<Longrightarrow>
   managed (snd (ShareDefaultResourceImpl_managed rt s)) = p \<and> get p \<noteq> None"
  by (auto simp: ShareDefaultResourceImpl_managed_def assign_managed_def
      dest: Create_get split: sum.splits prod.splits if_splits option.splits)




subsection \<open>The device slot\<close>

lemma device_get_or_create_result:
  assumes "fst (device_get_or_create rt d s) = Inr p"
  shows "\<exists>t. device s = Some t \<and> nat d < length t
           \<and> device (snd (device_get_or_create rt d s)) = Some (t[nat d := p])
           \<and> (get (t ! nat d) \<noteq> None \<longrightarrow> snd (device_get_or_create rt d s) = s \<and> p = t ! nat d)"
    and "get p \<noteq> None"
  using assms
  by (auto simp add: device_get_or_create_def split_beta Let_def assign_device_def
        dest: CreateDefaultDeviceResource_get
        split: option.splits if_splits sum.splits)

lemma device_get_or_create_frame [simp]:
  "host (snd (device_get_or_create rt d s)) = host s"
  "pinned_async (snd (device_get_or_create rt d s)) = pinned_async s"
  "managed (snd (device_get_or_create rt d s)) = managed s"
  "num_devices (snd (device_get_or_create rt d s)) = num_devices s"
  "current_device (snd (device_get_or_create rt d s)) = current_device s"
  "leaked (snd (device_get_or_create rt d s)) = leaked s"
  "held (snd (device_get_or_create rt d s)) = held s"
  by (simp_all add: device_get_or_create_def split_beta Let_def assign_device_def
        split: option.split sum.split)

lemma device_get_or_create_fail:
  "fst (device_get_or_create rt d s) = Inl e \<Longrightarrow>
   device (snd (device_get_or_create rt d s)) = device s"
  by (auto simp add: device_get_or_create_def split_beta Let_def
        split: option.splits if_splits sum.splits)

lemma Init_cases:
  "fst (InitDeviceResArray rt s) = Inr u \<Longrightarrow>
     (device s \<noteq> None \<and> snd (InitDeviceResArray rt s) = s)
   \<or> (device s = None \<and> 0 \<le> device_count rt
       \<and> device (snd (InitDeviceResArray rt s)) = Some (replicate (nat (device_count rt)) null_ptr)
       \<and> num_devices (snd (InitDeviceResArray rt s)) = device_count rt)"
  "fst (InitDeviceResArray rt s) = Inl e \<Longrightarrow> snd (InitDeviceResArray rt s) = s"
  by (auto simp add: InitDeviceResArray_def Let_def split: option.splits if_splits)

lemma Impl_device_unfold:
  "ShareDefaultDeviceResourceImpl rt d0 s =
     (case current_if_negative rt d0 s of
        Inl e \<Rightarrow> (Inl e, s)
      | Inr d \<Rightarrow>
          (case fst (InitDeviceResArray rt s) of
             Inl e \<Rightarrow> (Inl e, snd (InitDeviceResArray rt s))
           | Inr u \<Rightarrow>
               (case CheckDeviceIndex d (snd (InitDeviceResArray rt s)) of
                  Some e \<Rightarrow> (Inl e, snd (InitDeviceResArray rt s))
                | None \<Rightarrow> device_get_or_create rt d (snd (InitDeviceResArray rt s)))))"
  by (simp add: ShareDefaultDeviceResourceImpl_def split_beta split: sum.split option.split)

lemma Impl_device_frame [simp]:
  "host (snd (ShareDefaultDeviceResourceImpl rt d s)) = host s"
  "pinned_async (snd (ShareDefaultDeviceResourceImpl rt d s)) = pinned_async s"
  "managed (snd (ShareDefaultDeviceResourceImpl rt d s)) = managed s"
  "current_device (snd (ShareDefaultDeviceResourceImpl rt d s)) = current_device s"
  "leaked (snd (ShareDefaultDeviceResourceImpl rt d s)) = leaked s"
  "held (snd (ShareDefaultDeviceResourceImpl rt d s)) = held s"
  by (simp_all add: Impl_device_unfold split: sum.split option.split)

lemma Impl_device_result:
  assumes "fst (ShareDefaultDeviceResourceImpl rt d0 s) = Inr p"
  shows "device_slot (if d0 < 0 then current_device s else d0)
           (snd (ShareDefaultDeviceResourceImpl rt d0 s)) = Some p"
    and "get p \<noteq> None"
proof -
  let ?d = "if d0 < 0 then current_device s else d0"
  let ?s1 = "snd (InitDeviceResArray rt s)"
  from assms have c: "current_if_negative rt d0 s = Inr ?d"
    by (auto simp: Impl_device_unfold current_if_negative_def split: sum.splits option.splits if_splits)
  from assms c have k: "CheckDeviceIndex ?d ?s1 = None"
    and e: "ShareDefaultDeviceResourceImpl rt d0 s = device_get_or_create rt ?d ?s1"
    by (auto simp: Impl_device_unfold split: sum.splits option.splits)
  from assms e have g: "fst (device_get_or_create rt ?d ?s1) = Inr p"
    by simp
  from device_get_or_create_result [OF g] obtain t where
    t: "nat ?d < length t" "device (snd (device_get_or_create rt ?d ?s1)) = Some (t[nat ?d := p])"
    and "get p \<noteq> None"
    by blast
  from k have r: "0 \<le> ?d" "?d < num_devices ?s1"
    by (auto simp: CheckDeviceIndex_def split: if_splits)
  show "get p \<noteq> None" by fact
  from t r show "device_slot ?d (snd (ShareDefaultDeviceResourceImpl rt d0 s)) = Some p"
    unfolding e by (simp add: device_slot_def)
qed

lemma Impl_device_populated:
  assumes "device_slot (if d0 < 0 then current_device s else d0) s = Some p" "get p \<noteq> None"
    and "d0 < 0 \<longrightarrow> fails rt cudaGetDevice = None"
  shows "ShareDefaultDeviceResourceImpl rt d0 s = (Inr p, s)"
proof -
  let ?d = "if d0 < 0 then current_device s else d0"
  from assms(1) obtain t where t: "device s = Some t" "0 \<le> ?d" "?d < num_devices s"
      "nat ?d < length t" "t ! nat ?d = p"
    by (auto simp: device_slot_def split: option.splits if_splits)
  from assms(3) have c: "current_if_negative rt d0 s = Inr ?d"
    by (simp add: current_if_negative_def)
  from t assms(2) show ?thesis
    unfolding ShareDefaultDeviceResourceImpl_def c
    by (auto simp add: InitDeviceResArray_def CheckDeviceIndex_def device_get_or_create_def)
qed


lemma give_simps [simp]:
  "fst (give r) = fst r"
  "host (snd (give r)) = host (snd r)"
  "pinned_async (snd (give r)) = pinned_async (snd r)"
  "managed (snd (give r)) = managed (snd r)"
  "device (snd (give r)) = device (snd r)"
  "num_devices (snd (give r)) = num_devices (snd r)"
  "current_device (snd (give r)) = current_device (snd r)"
  "heap (snd (give r)) = heap (snd r)"
  "destroyed (snd (give r)) = destroyed (snd r)"
  "leaked (snd (give r)) = leaked (snd r)"
  by (simp_all add: give_def split: prod.split sum.split)

lemma give_held:
  "held (snd (give r)) = (case fst r of Inl e \<Rightarrow> held (snd r) | Inr p \<Rightarrow> p # held (snd r))"
  by (simp add: give_def split: prod.split sum.split)

lemma give_Inr: "give (Inr p, s) = (Inr p, s\<lparr>held := p # held s\<rparr>)"
  by (simp add: give_def)

lemma device_slot_cong:
  "device s' = device s \<Longrightarrow> num_devices s' = num_devices s \<Longrightarrow>
   device_slot d s' = device_slot d s"
  by (simp add: device_slot_def split: option.split)

lemma slot_of_cong:
  assumes "host s' = host s" "pinned_async s' = pinned_async s" "managed s' = managed s"
    "device s' = device s" "num_devices s' = num_devices s"
    "current_device s' = current_device s"
  shows "slot_of t s' = slot_of t s"
proof -
  have d: "device_slot i s' = device_slot i s" for i
    using assms(4,5) by (rule device_slot_cong)
  show ?thesis
  proof (cases t)
    case (Kind k)
    show ?thesis
      unfolding Kind by (cases k) (simp_all only: slot_of.simps assms d)
  next
    case (DeviceIndex i)
    show ?thesis
      unfolding DeviceIndex by (simp only: slot_of.simps assms d)
  qed
qed

lemma Impl_result:
  assumes "fst (ShareDefaultResourceImpl k rt s) = Inr p"
  shows "slot_of (Kind k) (snd (ShareDefaultResourceImpl k rt s)) = Some p \<and> get p \<noteq> None"
proof (cases k)
  case Host
  with assms host_result [of rt s p] show ?thesis by simp
next
  case Pinned
  with assms pinned_result [of rt s p] show ?thesis by simp
next
  case Managed
  with assms managed_result [of rt s p] show ?thesis by simp
next
  case Device
  with assms Impl_device_result [of rt "- 1" s p] show ?thesis by simp
qed

lemma share_default_result:
  assumes "fst (share_default t rt s) = Inr p"
  shows "slot_of t (snd (share_default t rt s)) = Some p \<and> get p \<noteq> None"
proof (cases t)
  case (Kind k)
  from assms Kind have f: "fst (ShareDefaultResourceImpl k rt s) = Inr p"
    by (simp add: ShareDefaultResource_def)
  have "slot_of (Kind k) (snd (give (ShareDefaultResourceImpl k rt s)))
        = slot_of (Kind k) (snd (ShareDefaultResourceImpl k rt s))"
    by (rule slot_of_cong) simp_all
  with Impl_result [OF f] Kind show ?thesis
    by (simp add: ShareDefaultResource_def)
next
  case (DeviceIndex d)
  from assms DeviceIndex have f: "fst (ShareDefaultDeviceResourceImpl rt d s) = Inr p"
    by (simp add: ShareDefaultDeviceResource_def)
  have "slot_of (DeviceIndex d) (snd (give (ShareDefaultDeviceResourceImpl rt d s)))
        = slot_of (DeviceIndex d) (snd (ShareDefaultDeviceResourceImpl rt d s))"
    by (rule slot_of_cong) simp_all
  with Impl_device_result [OF f] DeviceIndex show ?thesis
    by (cases "d < 0") (simp_all add: ShareDefaultDeviceResource_def)
qed

lemma share_default_populated:
  assumes "slot_of t s = Some p" "get p \<noteq> None"
    and "uses_current_device t \<longrightarrow> fails rt cudaGetDevice = None"
  shows "share_default t rt s = (Inr p, s\<lparr>held := p # held s\<rparr>)"
proof (cases t)
  case (Kind k)
  show ?thesis
  proof (cases k)
    case Host
    with assms Kind host_populated [of s rt] show ?thesis
      by (simp add: ShareDefaultResource_def give_Inr)
  next
    case Pinned
    with assms Kind pinned_populated [of s rt] show ?thesis
      by (simp add: ShareDefaultResource_def give_Inr)
  next
    case Managed
    with assms Kind managed_populated [of s rt] show ?thesis
      by (simp add: ShareDefaultResource_def give_Inr)
  next
    case Device
    with assms Kind Impl_device_populated [of "- 1" s p rt] show ?thesis
      by (simp add: ShareDefaultResource_def give_Inr)
  qed
next
  case (DeviceIndex d)
  with assms Impl_device_populated [of d s p rt] show ?thesis
    by (simp add: ShareDefaultDeviceResource_def give_Inr)
qed


lemma repeat_populated:
  assumes "slot_of t s = Some p" "get p \<noteq> None"
    and "uses_current_device t \<longrightarrow> (\<forall>r\<in>set rts. fails r cudaGetDevice = None)"
  shows "repeat_calls (share_default t) rts s =
           (replicate (length rts) (Inr p), s\<lparr>held := replicate (length rts) p @ held s\<rparr>)"
  using assms
proof (induction rts arbitrary: s)
  case Nil
  then show ?case by simp
next
  case (Cons r rts)
  let ?s' = "s\<lparr>held := p # held s\<rparr>"
  from Cons.prems have 1: "share_default t r s = (Inr p, ?s')"
    by (intro share_default_populated) simp_all
  have "slot_of t ?s' = slot_of t s"
    by (rule slot_of_cong) simp_all
  with Cons.prems have 2: "repeat_calls (share_default t) rts ?s' =
      (replicate (length rts) (Inr p), ?s'\<lparr>held := replicate (length rts) p @ held ?s'\<rparr>)"
    by (intro Cons.IH) simp_all
  show ?case
    by (simp add: 1 2 replicate_append_same)
qed



subsection \<open>Evaluation\<close>

text \<open>The definitions that a run on a concrete state unfolds.\<close>

lemmas run_defs =
  initial_world_def platform_def null_ptr_def owning_def make_shared_composite_resource_def
  ShareDefaultResource_def ShareDefaultDeviceResource_def GetDefaultResource_def
  GetDefaultDeviceResource_def give_def raw_def
  ShareDefaultResourceImpl_host_def ShareDefaultResourceImpl_pinned_def
  ShareDefaultResourceImpl_managed_def ShareDefaultDeviceResourceImpl_def
  device_get_or_create_def current_if_negative_def InitDeviceResArray_def CheckDeviceIndex_def
  CreateDefaultHostResource_def CreateDefaultPinnedResource_def
  CreateDefaultManagedResource_def CreateDefaultDeviceResource_def CUDARTLoader_def
  make_shared_def UseDeviceMemoryPool_def UsePinnedMemoryPool_def UseVMM_def env_flag_def
  atoi_def isspace_def isdigit_def INT_MIN_def INT_MAX_def
  assign_host_def assign_pinned_async_def assign_managed_def assign_device_def
  destroy_ptr_def live_ptrs_def static_ptr_def Let_def


lemma use_flag_cached: "flag_value f s = Some b \<Longrightarrow> use_flag f rt s = (b, s)"
  by (cases f) (simp_all add: UseDeviceMemoryPool_def UsePinnedMemoryPool_def UseVMM_def)

lemma use_flag_first:
  "flag_value f s = None \<Longrightarrow>
   fst (use_flag f rt s) = env_flag rt (flag_name f) \<and>
   flag_value f (snd (use_flag f rt s)) = Some (env_flag rt (flag_name f))"
  by (cases f) (simp_all add: UseDeviceMemoryPool_def UsePinnedMemoryPool_def UseVMM_def Let_def)


lemma raw_simps [simp]:
  "raw (Inl e, s) = (Inl e, s)" "raw (Inr p, s) = (Inr (get p), s)"
  "give (Inl e, s) = (Inl e, s)"
  by (simp_all add: raw_def give_def)

lemma device_negative:
  assumes "d < 0"
  shows "ShareDefaultDeviceResourceImpl rt d s =
           (case fails rt cudaGetDevice of
              Some e \<Rightarrow> (Inl e, s)
            | None \<Rightarrow> ShareDefaultDeviceResourceImpl rt (current_device s) s)"
  using assms
  by (simp add: ShareDefaultDeviceResourceImpl_def current_if_negative_def split: option.split)

lemma Set_device_negative:
  assumes "d < 0"
  shows "SetDefaultDeviceResource rt d p s =
           (case fails rt cudaGetDevice of
              Some e \<Rightarrow> (Inl e, destroy_ptr p s)
            | None \<Rightarrow> SetDefaultDeviceResource rt (current_device s) p s)"
  using assms
  by (simp add: SetDefaultDeviceResource_def current_if_negative_def split: option.split)



subsection \<open>Trimming\<close>

lemma chain_walk:
  "chain_ends n s mr \<Longrightarrow> GetPoolInterface s mr = Some (Inr (find_pool n s mr))"
proof (induction n s mr rule: find_pool.induct)
  case (1 n s)
  show ?case by (subst GetPoolInterface.simps) simp
next
  case (2 s a)
  then show ?case by simp
next
  case (3 n s a)
  from "3.prems" have al: "alive s a" by simp
  show ?case
  proof (cases "is_pool_resource_base (rtype (heap s ! a))")
    case True
    with al show ?thesis by (subst GetPoolInterface.simps) simp
  next
    case False
    show ?thesis
    proof (cases "as_with_upstream (rtype (heap s ! a))")
      case None
      with al False show ?thesis by (subst GetPoolInterface.simps) simp
    next
      case (Some up)
      with "3.prems" False have "chain_ends n s up" by simp
      with "3.IH" [OF False Some] have "GetPoolInterface s up = Some (Inr (find_pool n s up))" .
      with al False Some show ?thesis by (subst GetPoolInterface.simps) simp
    qed
  qed
qed

lemma trim_fields [simp]:
  "length (heap (trim P s)) = length (heap s)"
  "destroyed (trim P s) = destroyed s"
  "device (trim P s) = device s"
  "num_devices (trim P s) = num_devices s"
  "pinned_async (trim P s) = pinned_async s"
  "alive (trim P s) a = alive s a"
  by (simp_all add: trim_def alive_def)

lemma trim_nth:
  "a < length (heap s) \<Longrightarrow>
   heap (trim P s) ! a = (if a \<in> P then (heap s ! a)\<lparr>cached := 0\<rparr> else heap s ! a)"
  by (simp add: trim_def)

lemma trim_rtype [simp]:
  "alive s a \<Longrightarrow> rtype (heap (trim P s) ! a) = rtype (heap s ! a)"
  by (simp add: trim_nth alive_def)

lemma trim_heap_eq: "trim P s = s\<lparr>heap := heap (trim P s)\<rparr>"
  by (simp add: trim_def)

lemma trim_empty: "trim {} s = s"
  by (simp add: trim_def map_nth)

lemma trim_chain:
  "chain_ends n s mr \<Longrightarrow>
   chain_ends n (trim P s) mr \<and> find_pool n (trim P s) mr = find_pool n s mr"
proof (induction n s mr rule: find_pool.induct)
  case (3 n s a)
  from "3.prems" have al: "alive s a" by simp
  show ?case
  proof (cases "is_pool_resource_base (rtype (heap s ! a))")
    case True
    with al show ?thesis by simp
  next
    case False
    show ?thesis
    proof (cases "as_with_upstream (rtype (heap s ! a))")
      case None
      with al False show ?thesis by simp
    next
      case (Some up)
      with "3.prems" False have "chain_ends n s up" by simp
      with "3.IH" [OF False Some] al False Some show ?thesis by simp
    qed
  qed
qed simp_all

lemma find_pool_alive:
  "chain_ends n s mr \<Longrightarrow> find_pool n s mr = Some a \<Longrightarrow> alive s a"
proof (induction n s mr rule: find_pool.induct)
  case (3 n s b)
  then show ?case
    by (auto split: if_splits option.splits)
qed simp_all

lemma release_unused_trim:
  assumes "a < length (heap s)"
  shows "release_unused a (trim P s) = trim (insert a P) s"
proof -
  have "(heap (trim P s))[a := (heap (trim P s) ! a)\<lparr>cached := 0\<rparr>] = heap (trim (insert a P) s)"
    using assms by (auto simp add: list_eq_iff_nth_eq trim_nth nth_list_update)
  then show ?thesis
    by (simp add: release_unused_def trim_def)
qed

lemma release_pool_of_trim:
  assumes "chain_ends (length (heap s)) s mr"
  shows "release_pool_of mr (trim P s) =
           Some (Inr (trim (P \<union> set_option (find_pool (length (heap s)) s mr)) s))"
proof -
  let ?N = "length (heap s)"
  from trim_chain [OF assms, of P]
  have c: "chain_ends ?N (trim P s) mr" and f: "find_pool ?N (trim P s) mr = find_pool ?N s mr"
    by simp_all
  from chain_walk [OF c] f
  have g: "GetPoolInterface (trim P s) mr = Some (Inr (find_pool ?N s mr))"
    by simp
  show ?thesis
  proof (cases "find_pool ?N s mr")
    case None
    with g show ?thesis by (simp add: release_pool_of_def)
  next
    case (Some a)
    from find_pool_alive [OF assms Some] have "a < ?N" by (simp add: alive_def)
    with g Some show ?thesis
      by (simp add: release_pool_of_def release_unused_trim)
  qed
qed



declare release_devices.simps [simp del]

lemma release_devices_trim:
  assumes "n = int (length devs)" "0 \<le> i"
    and "\<forall>p\<in>set devs. chain_ends (length (heap s)) s (get p)"
  shows "release_devices devs i n (trim P s) =
           Some (Inr (trim (P \<union> set (List.map_filter (\<lambda>p. find_pool (length (heap s)) s (get p))
                                         (drop (nat i) devs))) s))"
  using assms(2)
proof (induction "nat (n - i)" arbitrary: i P)
  case 0
  with assms(1) have "\<not> i < n" "drop (nat i) devs = []" by simp_all
  then show ?case
    by (subst release_devices.simps) (simp add: List.map_filter_simps)
next
  case (Suc k)
  let ?f = "\<lambda>p. find_pool (length (heap s)) s (get p)"
  from Suc.hyps(2) Suc.prems assms(1) have lt: "i < n" "nat i < length devs" by simp_all
  then have d: "drop (nat i) devs = devs ! nat i # drop (nat (i + 1)) devs"
    using Suc.prems by (simp add: Cons_nth_drop_Suc nat_add_distrib)
  from lt assms(3) have c: "chain_ends (length (heap s)) s (get (devs ! nat i))"
    by simp
  let ?P' = "P \<union> set_option (?f (devs ! nat i))"
  from Suc.hyps(2) have k: "k = nat (n - (i + 1))" by simp
  from Suc.prems have "0 \<le> i + 1" by simp
  from Suc.hyps(1) [OF k this, of ?P']
  have ih: "release_devices devs (i + 1) n (trim ?P' s) =
      Some (Inr (trim (?P' \<union> set (List.map_filter ?f (drop (nat (i + 1)) devs))) s))" .
  have e: "?P' \<union> set (List.map_filter ?f (drop (nat (i + 1)) devs))
         = P \<union> set (List.map_filter ?f (drop (nat i) devs))"
    unfolding d by (cases "?f (devs ! nat i)") (simp_all add: List.map_filter_simps)
  from lt Suc.prems have "\<not> (i < 0 \<or> int (length devs) \<le> i)" by simp
  with lt(1) show ?case
    by (subst release_devices.simps) (simp add: release_pool_of_trim [OF c] ih e)
qed

lemma ReleaseUnusedMemory_trim:
  assumes "table_ok s" "chains_end s"
  shows "ReleaseUnusedMemory s = Some (Inr (trim_pools s))"
proof -
  let ?N = "length (heap s)"
  let ?f = "\<lambda>p. find_pool ?N s (get p)"
  from assms(2) have p: "chain_ends ?N s (get (pinned_async s))"
    by (simp add: chains_end_def trimmed_ptrs_def list_all_iff)
  show ?thesis
  proof (cases "device s")
    case None
    from release_pool_of_trim [OF p, of "{}"] None show ?thesis
      by (simp add: ReleaseUnusedMemory_def trim_empty trim_pools_def pools_def trimmed_ptrs_def
            List.map_filter_simps split: option.split)
  next
    case (Some devs)
    from assms(2) Some have a: "\<forall>p\<in>set devs. chain_ends ?N s (get p)"
      by (simp add: chains_end_def trimmed_ptrs_def list_all_iff)
    from assms(1) Some have n: "num_devices s = int (length devs)"
      by (simp add: table_ok_def)
    from release_devices_trim [OF n _ a, of 0 "{}"]
    have l: "release_devices devs 0 (num_devices s) s =
        Some (Inr (trim (set (List.map_filter ?f devs)) s))"
      by (simp add: trim_empty)
    have q: "set (pools s) = set (List.map_filter ?f devs) \<union> set_option (?f (pinned_async s))"
      by (cases "?f (pinned_async s)")
         (simp_all add: pools_def trimmed_ptrs_def Some List.map_filter_def)
    from Some show ?thesis
      by (simp add: ReleaseUnusedMemory_def l release_pool_of_trim [OF p] trim_pools_def q)
  qed
qed

lemma pools_trim:
  assumes "chains_end s"
  shows "chains_end (trim P s) \<and> pools (trim P s) = pools s"
proof -
  have t: "trimmed_ptrs (trim P s) = trimmed_ptrs s"
    by (simp add: trimmed_ptrs_def)
  from assms have "\<forall>p\<in>set (trimmed_ptrs s). chain_ends (length (heap s)) s (get p)"
    by (simp add: chains_end_def list_all_iff)
  then have "\<forall>p\<in>set (trimmed_ptrs s).
      chain_ends (length (heap s)) (trim P s) (get p)
      \<and> find_pool (length (heap s)) (trim P s) (get p) = find_pool (length (heap s)) s (get p)"
    using trim_chain by blast
  then show ?thesis
    by (simp add: chains_end_def pools_def t list_all_iff List.map_filter_def cong: map_cong filter_cong)
qed

lemma trim_trim: "trim P (trim P s) = trim P s"
proof -
  have "heap (trim P (trim P s)) = heap (trim P s)"
    by (auto simp add: list_eq_iff_nth_eq trim_nth)
  then show ?thesis
    by (subst trim_heap_eq) (simp add: trim_def)
qed



lemma self_upstream_never_returns:
  assumes "alive s a" "\<not> is_pool_resource_base (rtype (heap s ! a))"
    and "as_with_upstream (rtype (heap s ! a)) = Some (Some a)"
  shows "GetPoolInterface s (Some a) = None"
proof (rule ccontr)
  assume "GetPoolInterface s (Some a) \<noteq> None"
  then obtain y where y: "GetPoolInterface s (Some a) = Some y" by auto
  have "\<not> (s' = s \<and> mr = Some a)" if "GetPoolInterface s' mr = Some y'" for s' mr y'
    using that
  proof (rule GetPoolInterface.raw_induct [rotated, where P = "\<lambda>s' mr y'. \<not> (s' = s \<and> mr = Some a)"])
    fix G s' mr y'
    assume ih: "\<And>s' mr y'. G s' mr = Some y' \<Longrightarrow> \<not> (s' = s \<and> mr = Some a)"
      and body: "(case mr of None \<Rightarrow> Some (Inr None)
         | Some a \<Rightarrow>
             if \<not> alive s' a then Some (Inl dangling_pointer)
             else if is_pool_resource_base (rtype (heap s' ! a)) then Some (Inr (Some a))
             else (case as_with_upstream (rtype (heap s' ! a)) of
                     None \<Rightarrow> Some (Inr None)
                   | Some up \<Rightarrow> G s' up)) = Some y'"
    show "\<not> (s' = s \<and> mr = Some a)"
    proof
      assume "s' = s \<and> mr = Some a"
      with body assms have "G s (Some a) = Some y'" by simp
      from ih [OF this] show False by simp
    qed
  qed
  from this [OF y] show False by simp
qed



subsection \<open>Failure and retry\<close>

lemma Impl_host_frame [simp]:
  "pinned_async (snd (ShareDefaultResourceImpl_host rt s)) = pinned_async s"
  "managed (snd (ShareDefaultResourceImpl_host rt s)) = managed s"
  "device (snd (ShareDefaultResourceImpl_host rt s)) = device s"
  "num_devices (snd (ShareDefaultResourceImpl_host rt s)) = num_devices s"
  "current_device (snd (ShareDefaultResourceImpl_host rt s)) = current_device s"
  "leaked (snd (ShareDefaultResourceImpl_host rt s)) = leaked s"
  "held (snd (ShareDefaultResourceImpl_host rt s)) = held s"
  by (simp_all add: ShareDefaultResourceImpl_host_def assign_host_def split_beta split: sum.split)

lemma Impl_pinned_frame [simp]:
  "host (snd (ShareDefaultResourceImpl_pinned rt s)) = host s"
  "managed (snd (ShareDefaultResourceImpl_pinned rt s)) = managed s"
  "device (snd (ShareDefaultResourceImpl_pinned rt s)) = device s"
  "num_devices (snd (ShareDefaultResourceImpl_pinned rt s)) = num_devices s"
  "current_device (snd (ShareDefaultResourceImpl_pinned rt s)) = current_device s"
  "leaked (snd (ShareDefaultResourceImpl_pinned rt s)) = leaked s"
  "held (snd (ShareDefaultResourceImpl_pinned rt s)) = held s"
  by (simp_all add: ShareDefaultResourceImpl_pinned_def assign_pinned_async_def split_beta
        split: sum.split option.split)

lemma Impl_managed_frame [simp]:
  "host (snd (ShareDefaultResourceImpl_managed rt s)) = host s"
  "pinned_async (snd (ShareDefaultResourceImpl_managed rt s)) = pinned_async s"
  "device (snd (ShareDefaultResourceImpl_managed rt s)) = device s"
  "num_devices (snd (ShareDefaultResourceImpl_managed rt s)) = num_devices s"
  "current_device (snd (ShareDefaultResourceImpl_managed rt s)) = current_device s"
  "leaked (snd (ShareDefaultResourceImpl_managed rt s)) = leaked s"
  "held (snd (ShareDefaultResourceImpl_managed rt s)) = held s"
  by (simp_all add: ShareDefaultResourceImpl_managed_def assign_managed_def split_beta
        split: sum.split option.split)

lemma Impl_fail:
  "fst (ShareDefaultResourceImpl_host rt s) = Inl e \<Longrightarrow>
     host (snd (ShareDefaultResourceImpl_host rt s)) = host s"
  "fst (ShareDefaultResourceImpl_pinned rt s) = Inl e \<Longrightarrow>
     pinned_async (snd (ShareDefaultResourceImpl_pinned rt s)) = pinned_async s"
  "fst (ShareDefaultResourceImpl_managed rt s) = Inl e \<Longrightarrow>
     managed (snd (ShareDefaultResourceImpl_managed rt s)) = managed s"
  by (auto simp add: ShareDefaultResourceImpl_host_def ShareDefaultResourceImpl_pinned_def
        ShareDefaultResourceImpl_managed_def split_beta
        split: sum.splits option.splits if_splits)

lemma Impl_device_fail:
  assumes "fst (ShareDefaultDeviceResourceImpl rt d0 s) = Inl e"
  shows "device (snd (ShareDefaultDeviceResourceImpl rt d0 s)) = device s
       \<or> (device s = None
          \<and> device (snd (ShareDefaultDeviceResourceImpl rt d0 s)) =
              Some (replicate (nat (num_devices (snd (ShareDefaultDeviceResourceImpl rt d0 s))))
                     null_ptr))"
proof (cases "current_if_negative rt d0 s")
  case (Inl x)
  then show ?thesis by (simp add: Impl_device_unfold)
next
  case c: (Inr d)
  let ?s1 = "snd (InitDeviceResArray rt s)"
  show ?thesis
  proof (cases "fst (InitDeviceResArray rt s)")
    case (Inl x)
    with c Init_cases(2) [OF Inl] show ?thesis by (simp add: Impl_device_unfold)
  next
    case i: (Inr u)
    from Init_cases(1) [OF i]
    have t: "device ?s1 = device s
       \<or> (device s = None \<and> device ?s1 = Some (replicate (nat (num_devices ?s1)) null_ptr))"
      by auto
    show ?thesis
    proof (cases "CheckDeviceIndex d ?s1")
      case (Some x)
      with c i t show ?thesis by (simp add: Impl_device_unfold)
    next
      case None
      with c i have e: "ShareDefaultDeviceResourceImpl rt d0 s = device_get_or_create rt d ?s1"
        by (simp add: Impl_device_unfold)
      with assms have "fst (device_get_or_create rt d ?s1) = Inl e" by simp
      from device_get_or_create_fail [OF this] t show ?thesis
        unfolding e by simp
    qed
  qed
qed

lemma share_default_fail:
  assumes "fst (share_default t rt s) = Inl e"
  shows "host (snd (share_default t rt s)) = host s"
    and "pinned_async (snd (share_default t rt s)) = pinned_async s"
    and "managed (snd (share_default t rt s)) = managed s"
    and "held (snd (share_default t rt s)) = held s"
    and "device (snd (share_default t rt s)) = device s
       \<or> (device s = None
          \<and> device (snd (share_default t rt s)) =
              Some (replicate (nat (num_devices (snd (share_default t rt s)))) null_ptr))"
proof -
  have "host (snd (share_default t rt s)) = host s
      \<and> pinned_async (snd (share_default t rt s)) = pinned_async s
      \<and> managed (snd (share_default t rt s)) = managed s
      \<and> held (snd (share_default t rt s)) = held s
      \<and> (device (snd (share_default t rt s)) = device s
       \<or> (device s = None
          \<and> device (snd (share_default t rt s)) =
              Some (replicate (nat (num_devices (snd (share_default t rt s)))) null_ptr)))"
  proof (cases t)
    case (Kind k)
    show ?thesis
    proof (cases k)
      case Host
      with assms Kind Impl_fail(1) [of rt s e] show ?thesis
        by (simp add: ShareDefaultResource_def give_held)
    next
      case Pinned
      with assms Kind Impl_fail(2) [of rt s e] show ?thesis
        by (simp add: ShareDefaultResource_def give_held)
    next
      case Managed
      with assms Kind Impl_fail(3) [of rt s e] show ?thesis
        by (simp add: ShareDefaultResource_def give_held)
    next
      case Device
      with assms Kind Impl_device_fail [of rt "- 1" s e] show ?thesis
        by (simp add: ShareDefaultResource_def give_held)
    qed
  next
    case (DeviceIndex d)
    with assms Impl_device_fail [of rt d s e] show ?thesis
      by (simp add: ShareDefaultDeviceResource_def give_held)
  qed
  then show "host (snd (share_default t rt s)) = host s"
    and "pinned_async (snd (share_default t rt s)) = pinned_async s"
    and "managed (snd (share_default t rt s)) = managed s"
    and "held (snd (share_default t rt s)) = held s"
    and "device (snd (share_default t rt s)) = device s
       \<or> (device s = None
          \<and> device (snd (share_default t rt s)) =
              Some (replicate (nat (num_devices (snd (share_default t rt s)))) null_ptr))"
    by simp_all
qed



subsection \<open>Overrides\<close>



lemma assign_frame [simp]:
  "heap (assign_host p s) = heap s" "held (assign_host p s) = held s"
  "host (assign_host p s) = p"
  "heap (assign_pinned_async p s) = heap s" "held (assign_pinned_async p s) = held s"
  "pinned_async (assign_pinned_async p s) = p"
  "heap (assign_device i p s) = heap s" "held (assign_device i p s) = held s"
  "num_devices (assign_device i p s) = num_devices s"
  "current_device (assign_device i p s) = current_device s"
  by (simp_all add: assign_host_def assign_pinned_async_def assign_device_def split: option.split)

lemma Init_alive [simp]: "alive (snd (InitDeviceResArray rt s)) a = alive s a"
  by (simp add: alive_def)

lemma Set_device_frame [simp]:
  "heap (snd (SetDefaultDeviceResource rt d p s)) = heap s"
  "held (snd (SetDefaultDeviceResource rt d p s)) = held s"
  "current_device (snd (SetDefaultDeviceResource rt d p s)) = current_device s"
  by (simp_all add: SetDefaultDeviceResource_def split_beta split: sum.split option.split)








subsection \<open>Release\<close>

lemma live_ptrs_destroy_ptr [simp]: "live_ptrs (destroy_ptr p s) = live_ptrs s"
  by (simp add: live_ptrs_def destroy_ptr_def)


lemma fold_destroy_ptr_frame [simp]:
  "live_ptrs (fold destroy_ptr ps s) = live_ptrs s"
  "heap (fold destroy_ptr ps s) = heap s"
  "held (fold destroy_ptr ps s) = held s"
  "leaked (fold destroy_ptr ps s) = leaked s"
  "device (fold destroy_ptr ps s) = device s"
  by (induction ps arbitrary: s; simp)+








subsection \<open>Cached flags stay\<close>

lemma flag_value_frame [simp]:
  "flag_value f (destroy_ptr p s) = flag_value f s"
  "flag_value f (assign_host p s) = flag_value f s"
  "flag_value f (assign_pinned_async p s) = flag_value f s"
  "flag_value f (assign_managed p s) = flag_value f s"
  "flag_value f (assign_device i p s) = flag_value f s"
  "flag_value f (snd (make_shared rt c t s)) = flag_value f s"
  "flag_value f (snd (InitDeviceResArray rt s)) = flag_value f s"
  "flag_value f (snd (CreateDefaultHostResource rt s)) = flag_value f s"
  "flag_value f (snd (CreateDefaultManagedResource rt s)) = flag_value f s"
  "flag_value f (snd (give r)) = flag_value f (snd r)"
  by (cases f; simp add: destroy_ptr_def assign_host_def assign_pinned_async_def
        assign_managed_def assign_device_def make_shared_def InitDeviceResArray_def
        CreateDefaultHostResource_def CreateDefaultManagedResource_def give_def Let_def
        split: option.split prod.split sum.split)+

lemma flag_kept_create:
  assumes "flag_value f s = Some v"
  shows "flag_value f (snd (CreateDefaultPinnedResource rt s)) = Some v"
    and "flag_value f (snd (CreateDefaultDeviceResource rt s)) = Some v"
  using assms
  by (cases f; simp add: CreateDefaultPinnedResource_def CreateDefaultDeviceResource_def
        make_shared_def UsePinnedMemoryPool_eq UseDeviceMemoryPool_eq UseVMM_eq flag_now_def
        destroy_ptr_def Let_def split: option.split)+

lemma flag_value_update [simp]:
  "flag_value f (s\<lparr>init_cuda_pinned := b\<rparr>) = flag_value f s"
  "flag_value f (s\<lparr>init_cuda_managed := b\<rparr>) = flag_value f s"
  "flag_value f (s\<lparr>init_cuda_device := b\<rparr>) = flag_value f s"
  "flag_value f (s\<lparr>cleanup_pinned := b\<rparr>) = flag_value f s"
  "flag_value f (s\<lparr>cleanup_managed := b\<rparr>) = flag_value f s"
  "flag_value f (s\<lparr>cleanup_device := b\<rparr>) = flag_value f s"
  "flag_value f (s\<lparr>current_device := c\<rparr>) = flag_value f s"
  by (cases f; simp)+

lemma flag_kept_impl:
  assumes "flag_value f s = Some v"
  shows "flag_value f (snd (ShareDefaultResourceImpl_host rt s)) = Some v"
    and "flag_value f (snd (ShareDefaultResourceImpl_pinned rt s)) = Some v"
    and "flag_value f (snd (ShareDefaultResourceImpl_managed rt s)) = Some v"
    and "flag_value f (snd (device_get_or_create rt d s)) = Some v"
proof -
  from assms show "flag_value f (snd (ShareDefaultResourceImpl_host rt s)) = Some v"
    by (simp add: ShareDefaultResourceImpl_host_def split_beta split: sum.split)
  have p: "flag_value f (s\<lparr>init_cuda_pinned := True\<rparr>) = Some v"
    using assms by simp
  from assms flag_kept_create(1) [OF p, of rt]
  show "flag_value f (snd (ShareDefaultResourceImpl_pinned rt s)) = Some v"
    by (simp add: ShareDefaultResourceImpl_pinned_def split_beta
          split: sum.split option.split)
  from assms show "flag_value f (snd (ShareDefaultResourceImpl_managed rt s)) = Some v"
    by (simp add: ShareDefaultResourceImpl_managed_def split_beta
          split: sum.split option.split)
  have d: "flag_value f (s\<lparr>current_device := d, init_cuda_device := True\<rparr>) = Some v"
    using assms by simp
  from assms flag_kept_create(2) [OF d, of rt]
  show "flag_value f (snd (device_get_or_create rt d s)) = Some v"
    by (simp add: device_get_or_create_def split_beta Let_def
          split: sum.split option.split)
qed

lemma flag_kept_share_default:
  assumes "flag_value f s = Some v"
  shows "flag_value f (snd (share_default t rt s)) = Some v"
proof -
  have i: "flag_value f (snd (InitDeviceResArray rt s)) = Some v"
    using assms by simp
  have d: "flag_value f (snd (ShareDefaultDeviceResourceImpl rt d0 s)) = Some v" for d0
    using assms flag_kept_impl(4) [OF i]
    by (simp add: Impl_device_unfold split: sum.split option.split)
  show ?thesis
  proof (cases t)
    case (Kind k)
    with flag_kept_impl(1-3) [OF assms] d show ?thesis
      by (cases k) (simp_all add: ShareDefaultResource_def)
  next
    case (DeviceIndex i)
    with d show ?thesis by (simp add: ShareDefaultDeviceResource_def)
  qed
qed

subsection \<open>The size of the table\<close>

lemma table_ok_initial: "table_ok (initial_world d)"
  by (simp add: table_ok_def initial_world_def)

lemma table_ok_cong:
  "device s' = device s \<Longrightarrow> num_devices s' = num_devices s \<Longrightarrow> table_ok s' = table_ok s"
  by (cases "device s") (simp_all add: table_ok_def)

lemma table_ok_Init: "table_ok s \<Longrightarrow> table_ok (snd (InitDeviceResArray rt s))"
  by (auto simp add: table_ok_def InitDeviceResArray_def Let_def split: option.splits)

lemma table_ok_assign_device: "table_ok s \<Longrightarrow> table_ok (assign_device i p s)"
  by (auto simp add: table_ok_def assign_device_def split: option.splits)

lemma table_ok_device_get_or_create:
  assumes "table_ok s"
  shows "table_ok (snd (device_get_or_create rt d s))"
proof (cases "fst (device_get_or_create rt d s)")
  case (Inl e)
  from device_get_or_create_fail [OF Inl] assms show ?thesis
    by (simp add: table_ok_def split: option.splits)
next
  case (Inr p)
  from device_get_or_create_result(1) [OF Inr] assms show ?thesis
    by (auto simp add: table_ok_def split: option.splits)
qed

lemma table_ok_same:
  "table_ok s \<Longrightarrow> device s' = device s \<Longrightarrow> num_devices s' = num_devices s \<Longrightarrow> table_ok s'"
  by (cases "device s") (simp_all add: table_ok_def)

lemma table_ok_Impl_device:
  assumes "table_ok s"
  shows "table_ok (snd (ShareDefaultDeviceResourceImpl rt d0 s))"
  using assms table_ok_Init [OF assms, of rt]
    table_ok_device_get_or_create [OF table_ok_Init [OF assms, of rt]]
  by (simp add: Impl_device_unfold split: sum.split option.split)

lemma table_ok_share_default:
  assumes "table_ok s"
  shows "table_ok (snd (share_default t rt s))"
proof (cases t)
  case (Kind k)
  show ?thesis
  proof (cases k)
    case Host
    show ?thesis unfolding Kind Host
      by (rule table_ok_same [OF assms]) (simp_all add: ShareDefaultResource_def)
  next
    case Pinned
    show ?thesis unfolding Kind Pinned
      by (rule table_ok_same [OF assms]) (simp_all add: ShareDefaultResource_def)
  next
    case Managed
    show ?thesis unfolding Kind Managed
      by (rule table_ok_same [OF assms]) (simp_all add: ShareDefaultResource_def)
  next
    case Device
    show ?thesis unfolding Kind Device
      by (rule table_ok_same [OF table_ok_Impl_device [OF assms, of rt "- 1"]])
         (simp_all add: ShareDefaultResource_def)
  qed
next
  case (DeviceIndex i)
  show ?thesis unfolding DeviceIndex
    by (rule table_ok_same [OF table_ok_Impl_device [OF assms, of rt i]])
       (simp_all add: ShareDefaultDeviceResource_def)
qed

lemma table_ok_destroy_ptr: "table_ok s \<Longrightarrow> table_ok (destroy_ptr p s)"
  by (erule table_ok_same) simp_all

lemma table_ok_Set_device:
  assumes "table_ok s"
  shows "table_ok (snd (SetDefaultDeviceResource rt d p s))"
  using table_ok_destroy_ptr [OF assms, of p]
    table_ok_destroy_ptr [OF table_ok_Init [OF assms, of rt], of p]
    table_ok_Init [OF assms, of rt]
    table_ok_assign_device [OF table_ok_Init [OF assms, of rt]]
  by (simp add: SetDefaultDeviceResource_def split_beta split: sum.split option.split)

lemma table_ok_set_default:
  assumes "table_ok s" "set_default t rt p s = Some (r, s1)"
  shows "table_ok s1"
proof (cases t)
  case (Kind k)
  show ?thesis
  proof (cases k)
    case Host
    with assms(2) Kind have "s1 = destroy_ptr (host s) (s\<lparr>host := p\<rparr>)"
      by (auto simp add: SetDefaultResource_host_def assign_host_def)
    then show ?thesis
      by (intro table_ok_same [OF assms(1)]) simp_all
  next
    case Pinned
    with assms(2) Kind have "s1 = destroy_ptr (pinned_async s) (s\<lparr>pinned_async := p\<rparr>)"
      by (auto simp add: SetDefaultResource_pinned_def assign_pinned_async_def)
    then show ?thesis
      by (intro table_ok_same [OF assms(1)]) simp_all
  next
    case Managed
    with assms Kind show ?thesis by simp
  next
    case Device
    with assms(2) Kind
    have "s1 = destroy_ptr p s \<or> s1 = snd (SetDefaultDeviceResource rt (current_device s) p s)"
      by (auto simp add: SetDefaultResource_device_def split: option.splits)
    with table_ok_Set_device [OF assms(1)] table_ok_destroy_ptr [OF assms(1)] show ?thesis
      by auto
  qed
next
  case (DeviceIndex d)
  with assms(2) have "s1 = snd (SetDefaultDeviceResource rt d p s)"
    by auto
  with table_ok_Set_device [OF assms(1)] show ?thesis
    by simp
qed

lemma table_ok_Release: "table_ok s \<Longrightarrow> table_ok (Release k rt s)"
  by (cases k)
     (auto simp add: table_ok_def ReleaseHost_def ReleasePinned_def ReleaseManaged_def
        ReleaseDevice_def assign_host_def assign_pinned_async_def assign_managed_def
        destroy_table_def split: option.splits)

lemma table_ok_Test_FreeDeviceResources: "table_ok (Test_FreeDeviceResources s)"
  by (simp add: table_ok_def Test_FreeDeviceResources_def destroy_table_def split: option.split)

lemma table_ok_trim: "table_ok s \<Longrightarrow> table_ok (trim P s)"
  by (simp add: table_ok_def split: option.splits)


subsection \<open>The statics of \<open>CreateDefaultPinnedResource\<close>\<close>

lemma pinned_statics_ok_initial: "pinned_statics_ok (initial_world d)"
  by (simp add: pinned_statics_ok_def is_pinned_malloc_def initial_world_def)

lemma pinned_statics_ok_Create:
  assumes "pinned_statics_ok s"
  shows "pinned_statics_ok (snd (CreateDefaultPinnedResource rt s))"
  using assms
  by (auto simp add: pinned_statics_ok_def is_pinned_malloc_def CreateDefaultPinnedResource_def
        make_shared_def UsePinnedMemoryPool_eq nth_append split: option.splits)

subsection \<open>The calls of a construction\<close>

lemma first_failure_append:
  "first_failure rt (xs @ ys) =
     (case first_failure rt xs of Some e \<Rightarrow> Some e | None \<Rightarrow> first_failure rt ys)"
  by (induction xs) (simp_all split: option.split)

lemma loader_outcome:
  "(if i then None else CUDARTLoader rt st) = first_failure rt (loader_calls st i)"
  by (simp add: CUDARTLoader_def loader_calls_def split: option.split)

lemma sized_frame [simp]:
  "host (sized rt s) = host s"
  "pinned_async (sized rt s) = pinned_async s"
  "managed (sized rt s) = managed s"
  "current_device (sized rt s) = current_device s"
  "held (sized rt s) = held s"
  "init_cuda_device (sized rt s) = init_cuda_device s"
  "CUDAInit (sized rt s) = CUDAInit s"
  "event_pool (sized rt s) = event_pool s"
  "flag_value f (sized rt s) = flag_value f s"
  by (cases f; simp add: sized_def split: option.split)+

lemma sized_idem [simp]: "device s \<noteq> None \<Longrightarrow> sized rt s = s"
  by (auto simp add: sized_def)

lemma sized_device [simp]: "device (sized rt s) \<noteq> None"
  by (simp add: sized_def split: option.split)

lemma Init_sized:
  "fst (InitDeviceResArray rt s) = Inr u \<Longrightarrow> snd (InitDeviceResArray rt s) = sized rt s"
  by (auto simp add: InitDeviceResArray_def sized_def Let_def split: option.splits if_splits)

lemma flag_now_update [simp]:
  "flag_now f rt (s\<lparr>CUDAInit := b\<rparr>) = flag_now f rt s"
  "flag_now f rt (s\<lparr>event_pool := b\<rparr>) = flag_now f rt s"
  "flag_now f rt (s\<lparr>init_cuda_pinned := b\<rparr>) = flag_now f rt s"
  "flag_now f rt (s\<lparr>init_cuda_managed := b\<rparr>) = flag_now f rt s"
  "flag_now f rt (s\<lparr>init_cuda_device := b\<rparr>) = flag_now f rt s"
  "flag_now f rt (s\<lparr>current_device := c\<rparr>) = flag_now f rt s"
  "flag_now f rt (sized rt' s) = flag_now f rt s"
  "flag_now VMM rt (s\<lparr>UseDeviceMemoryPool_value := x\<rparr>) = flag_now VMM rt s"
  by (cases f; simp add: flag_now_def)+

lemma calls_update [simp]:
  "pinned_calls rt (s\<lparr>init_cuda_pinned := b\<rparr>) = pinned_calls rt s"
  "managed_calls (s\<lparr>init_cuda_managed := b\<rparr>) = managed_calls s"
  "device_calls rt (s\<lparr>init_cuda_device := b\<rparr>) = device_calls rt s"
  "device_calls rt (s\<lparr>current_device := c\<rparr>) = device_calls rt s"
  "device_calls rt (sized rt' s) = device_calls rt s"
  by (simp_all add: pinned_calls_def managed_calls_def device_calls_def)

lemma Create_host_outcome:
  "case first_failure rt (host_calls s) of
     Some e \<Rightarrow> fst (CreateDefaultHostResource rt s) = Inl e
   | None \<Rightarrow> (\<exists>p. fst (CreateDefaultHostResource rt s) = Inr p)"
  by (simp add: host_calls_def CreateDefaultHostResource_def make_shared_def
        split: option.split)

lemma Create_managed_outcome:
  "case first_failure rt (managed_calls s) of
     Some e \<Rightarrow> fst (CreateDefaultManagedResource rt s) = Inl e
   | None \<Rightarrow> (\<exists>p. fst (CreateDefaultManagedResource rt s) = Inr p)"
  by (simp add: managed_calls_def CreateDefaultManagedResource_def make_shared_def
        split: option.split)

lemma Create_pinned_outcome:
  "case first_failure rt (pinned_calls rt s) of
     Some e \<Rightarrow> fst (CreateDefaultPinnedResource rt s) = Inl e
   | None \<Rightarrow> (\<exists>p. fst (CreateDefaultPinnedResource rt s) = Inr p)"
  by (simp add: pinned_calls_def CreateDefaultPinnedResource_def UsePinnedMemoryPool_eq
        make_shared_def split: option.split)

lemma Create_device_outcome:
  "case first_failure rt (device_calls rt s) of
     Some e \<Rightarrow> fst (CreateDefaultDeviceResource rt s) = Inl e
   | None \<Rightarrow> (\<exists>p. fst (CreateDefaultDeviceResource rt s) = Inr p)"
  by (simp add: device_calls_def loader_calls_def CUDARTLoader_def CreateDefaultDeviceResource_def
        UseDeviceMemoryPool_eq UseVMM_eq make_shared_def Let_def
        split: option.split)


lemma fst_case_result:
  "fst (case r of (Inl e, s) \<Rightarrow> (Inl e, g e s) | (Inr p, s) \<Rightarrow> (Inr p, f p s)) = fst r"
  by (simp split: prod.split sum.split)

lemma Impl_host_outcome:
  assumes "get (host s) = None"
  shows "case first_failure rt (host_calls s) of
     Some e \<Rightarrow> fst (ShareDefaultResourceImpl_host rt s) = Inl e
   | None \<Rightarrow> (\<exists>p. fst (ShareDefaultResourceImpl_host rt s) = Inr p)"
proof -
  from assms
  have e: "fst (ShareDefaultResourceImpl_host rt s) = fst (CreateDefaultHostResource rt s)"
    by (simp add: ShareDefaultResourceImpl_host_def split_beta split: sum.split)
  show ?thesis
    unfolding e by (rule Create_host_outcome)
qed

lemma Impl_pinned_outcome:
  assumes "get (pinned_async s) = None"
  shows "case first_failure rt (loader_calls loader_pinned (init_cuda_pinned s) @ pinned_calls rt s) of
     Some e \<Rightarrow> fst (ShareDefaultResourceImpl_pinned rt s) = Inl e
   | None \<Rightarrow> (\<exists>p. fst (ShareDefaultResourceImpl_pinned rt s) = Inr p)"
proof -
  from assms
  have "fst (ShareDefaultResourceImpl_pinned rt s) =
      (case first_failure rt (loader_calls loader_pinned (init_cuda_pinned s)) of
         Some e \<Rightarrow> Inl e
       | None \<Rightarrow> fst (CreateDefaultPinnedResource rt (s\<lparr>init_cuda_pinned := True\<rparr>)))"
    unfolding ShareDefaultResourceImpl_pinned_def loader_outcome
    by (simp add: split_beta split: sum.split option.split)
  with Create_pinned_outcome [of rt "s\<lparr>init_cuda_pinned := True\<rparr>"] show ?thesis
    by (auto simp add: first_failure_append split: option.splits)
qed

lemma Impl_managed_outcome:
  assumes "get (managed s) = None"
  shows "case first_failure rt (loader_calls loader_managed (init_cuda_managed s) @ managed_calls s) of
     Some e \<Rightarrow> fst (ShareDefaultResourceImpl_managed rt s) = Inl e
   | None \<Rightarrow> (\<exists>p. fst (ShareDefaultResourceImpl_managed rt s) = Inr p)"
proof -
  from assms
  have "fst (ShareDefaultResourceImpl_managed rt s) =
      (case first_failure rt (loader_calls loader_managed (init_cuda_managed s)) of
         Some e \<Rightarrow> Inl e
       | None \<Rightarrow> fst (CreateDefaultManagedResource rt (s\<lparr>init_cuda_managed := True\<rparr>)))"
    unfolding ShareDefaultResourceImpl_managed_def loader_outcome
    by (simp add: split_beta split: sum.split option.split)
  with Create_managed_outcome [of rt "s\<lparr>init_cuda_managed := True\<rparr>"] show ?thesis
    by (auto simp add: first_failure_append split: option.splits)
qed

lemma device_get_or_create_outcome:
  assumes "device s = Some t" "nat d < length t" "get (t ! nat d) = None"
  shows "case first_failure rt
            ([DeviceGuard_ctor] @ loader_calls loader_device (init_cuda_device s)
             @ device_calls rt s) of
     Some e \<Rightarrow> fst (device_get_or_create rt d s) = Inl e
   | None \<Rightarrow> (\<exists>p. fst (device_get_or_create rt d s) = Inr p)"
proof -
  let ?s2 = "s\<lparr>current_device := d, init_cuda_device := True\<rparr>"
  from assms
  have "fst (device_get_or_create rt d s) =
      (case fails rt DeviceGuard_ctor of
         Some e \<Rightarrow> Inl e
       | None \<Rightarrow>
           (case first_failure rt (loader_calls loader_device (init_cuda_device s)) of
              Some e \<Rightarrow> Inl e
            | None \<Rightarrow> fst (CreateDefaultDeviceResource rt ?s2)))"
    unfolding device_get_or_create_def Let_def
    by (simp add: loader_outcome [symmetric] split_beta split: sum.split option.split)
  with Create_device_outcome [of rt ?s2] show ?thesis
    by (auto simp add: first_failure_append split: option.splits)
qed

lemma Impl_device_outcome:
  assumes "device_slot (if d0 < 0 then current_device s else d0) (sized rt s) = Some q"
    and "get q = None"
  shows "case first_failure rt (device_slot_calls d0 rt s) of
     Some e \<Rightarrow> fst (ShareDefaultDeviceResourceImpl rt d0 s) = Inl e
   | None \<Rightarrow> (\<exists>p. fst (ShareDefaultDeviceResourceImpl rt d0 s) = Inr p)"
proof -
  let ?d = "if d0 < 0 then current_device s else d0"
  let ?s1 = "sized rt s"
  let ?rest = "[DeviceGuard_ctor] @ loader_calls loader_device (init_cuda_device s)
     @ device_calls rt s"
  from assms obtain t where t: "device ?s1 = Some t" "0 \<le> ?d" "?d < num_devices ?s1"
      "nat ?d < length t" "get (t ! nat ?d) = None"
    by (auto simp: device_slot_def split: option.splits if_splits)
  from t have k: "CheckDeviceIndex ?d ?s1 = None"
    by (simp add: CheckDeviceIndex_def)
  have c: "current_if_negative rt d0 s =
      (case first_failure rt (if d0 < 0 then [cudaGetDevice] else []) of
         Some e \<Rightarrow> Inl e | None \<Rightarrow> Inr ?d)"
    by (simp add: current_if_negative_def split: option.split)
  have n: "0 \<le> device_count rt" if "device s = None"
    using that t(1,4) by (auto simp add: sized_def)
  have i: "fst (InitDeviceResArray rt s) =
      (case first_failure rt (if device s = None then [cudaGetDeviceCount] else []) of
         Some e \<Rightarrow> Inl e | None \<Rightarrow> Inr ())"
    using n by (auto simp add: InitDeviceResArray_def Let_def split: option.split)
  have g: "case first_failure rt ?rest of
     Some e \<Rightarrow> fst (device_get_or_create rt ?d ?s1) = Inl e
   | None \<Rightarrow> (\<exists>p. fst (device_get_or_create rt ?d ?s1) = Inr p)"
    using device_get_or_create_outcome [OF t(1,4,5), of rt] by simp
  show ?thesis
  proof (cases "first_failure rt (if d0 < 0 then [cudaGetDevice] else [])")
    case (Some e)
    with c show ?thesis
      by (simp add: device_slot_calls_def first_failure_append Impl_device_unfold)
  next
    case c0: None
    show ?thesis
    proof (cases "first_failure rt (if device s = None then [cudaGetDeviceCount] else [])")
      case (Some e)
      with c c0 i show ?thesis
        by (simp add: device_slot_calls_def first_failure_append Impl_device_unfold)
    next
      case i0: None
      with i have "fst (InitDeviceResArray rt s) = Inr ()"
        by simp
      with Init_sized [OF this] c c0 k
      have e: "ShareDefaultDeviceResourceImpl rt d0 s = device_get_or_create rt ?d ?s1"
        by (simp add: Impl_device_unfold)
      from g c0 i0 show ?thesis
        unfolding e by (simp add: device_slot_calls_def first_failure_append)
    qed
  qed
qed

lemma share_default_outcome:
  assumes "slot_of t (sized rt s) = Some q" and "get q = None"
  shows "case first_failure rt (share_calls t rt s) of
     Some e \<Rightarrow> fst (share_default t rt s) = Inl e
   | None \<Rightarrow> (\<exists>p. fst (share_default t rt s) = Inr p)"
proof (cases t)
  case (Kind k)
  show ?thesis
  proof (cases k)
    case Host
    with assms Kind Impl_host_outcome [of s rt] show ?thesis
      by (auto simp add: ShareDefaultResource_def split: option.splits)
  next
    case Pinned
    with assms Kind Impl_pinned_outcome [of s rt] show ?thesis
      by (auto simp add: ShareDefaultResource_def split: option.splits)
  next
    case Managed
    with assms Kind Impl_managed_outcome [of s rt] show ?thesis
      by (auto simp add: ShareDefaultResource_def split: option.splits)
  next
    case Device
    with assms Kind Impl_device_outcome [of "- 1" s rt q] show ?thesis
      by (auto simp add: ShareDefaultResource_def split: option.splits)
  qed
next
  case (DeviceIndex d)
  with assms have "device_slot (if d < 0 then current_device s else d) (sized rt s) = Some q"
    by (cases "d < 0") simp_all
  from Impl_device_outcome [OF this assms(2)] DeviceIndex show ?thesis
    by (auto simp add: ShareDefaultDeviceResource_def split: option.splits)
qed

lemma sized_cong:
  assumes "device s' = device s" "num_devices s' = num_devices s"
  shows "device (sized rt s') = device (sized rt s)"
    and "num_devices (sized rt s') = num_devices (sized rt s)"
  using assms by (simp_all add: sized_def split: option.split)

lemma Impl_device_fail_sized:
  assumes "fst (ShareDefaultDeviceResourceImpl rt d0 s) = Inl e"
  shows "device (sized rt (snd (ShareDefaultDeviceResourceImpl rt d0 s))) = device (sized rt s)
       \<and> num_devices (sized rt (snd (ShareDefaultDeviceResourceImpl rt d0 s)))
           = num_devices (sized rt s)"
proof (cases "current_if_negative rt d0 s")
  case (Inl x)
  then show ?thesis by (simp add: Impl_device_unfold)
next
  case c: (Inr d)
  let ?s1 = "snd (InitDeviceResArray rt s)"
  show ?thesis
  proof (cases "fst (InitDeviceResArray rt s)")
    case (Inl x)
    with c Init_cases(2) [OF Inl] show ?thesis by (simp add: Impl_device_unfold)
  next
    case i: (Inr u)
    note z = Init_sized [OF i]
    show ?thesis
    proof (cases "CheckDeviceIndex d ?s1")
      case (Some x)
      with c i z show ?thesis by (simp add: Impl_device_unfold)
    next
      case None
      with c i have e: "ShareDefaultDeviceResourceImpl rt d0 s = device_get_or_create rt d ?s1"
        by (simp add: Impl_device_unfold)
      with assms have "fst (device_get_or_create rt d ?s1) = Inl e" by simp
      from device_get_or_create_fail [OF this] z
      have "device (snd (device_get_or_create rt d (sized rt s))) = device (sized rt s)"
        by simp
      then show ?thesis
        unfolding e z by simp
    qed
  qed
qed

lemma sized_give [simp]:
  "device (sized rt (snd (give r))) = device (sized rt (snd r))"
  "num_devices (sized rt (snd (give r))) = num_devices (sized rt (snd r))"
  by (rule sized_cong; simp)+

lemma share_default_fail_slot:
  assumes "fst (share_default t rt s) = Inl e"
  shows "slot_of t (sized rt (snd (share_default t rt s))) = slot_of t (sized rt s)"
proof -
  let ?s1 = "snd (share_default t rt s)"
  have "device (sized rt ?s1) = device (sized rt s)
      \<and> num_devices (sized rt ?s1) = num_devices (sized rt s)
      \<and> current_device ?s1 = current_device s"
  proof (cases t)
    case (Kind k)
    show ?thesis
    proof (cases k)
      case Host
      have "device (sized rt (snd (ShareDefaultResourceImpl_host rt s))) = device (sized rt s)"
        "num_devices (sized rt (snd (ShareDefaultResourceImpl_host rt s))) = num_devices (sized rt s)"
        by (rule sized_cong; simp)+
      with Kind Host show ?thesis
        by (simp add: ShareDefaultResource_def)
    next
      case Pinned
      have "device (sized rt (snd (ShareDefaultResourceImpl_pinned rt s))) = device (sized rt s)"
        "num_devices (sized rt (snd (ShareDefaultResourceImpl_pinned rt s))) = num_devices (sized rt s)"
        by (rule sized_cong; simp)+
      with Kind Pinned show ?thesis
        by (simp add: ShareDefaultResource_def)
    next
      case Managed
      have "device (sized rt (snd (ShareDefaultResourceImpl_managed rt s))) = device (sized rt s)"
        "num_devices (sized rt (snd (ShareDefaultResourceImpl_managed rt s))) = num_devices (sized rt s)"
        by (rule sized_cong; simp)+
      with Kind Managed show ?thesis
        by (simp add: ShareDefaultResource_def)
    next
      case Device
      with assms Kind Impl_device_fail_sized [of rt "- 1" s e] show ?thesis
        by (simp add: ShareDefaultResource_def)
    qed
  next
    case (DeviceIndex d)
    with assms Impl_device_fail_sized [of rt d s e] show ?thesis
      by (simp add: ShareDefaultDeviceResource_def)
  qed
  moreover note share_default_fail(1-3) [OF assms]
  ultimately show ?thesis
    by (intro slot_of_cong) simp_all
qed

lemma retry_slot_empty:
  assumes "slot_of t (sized rt s) = Some q" "get q = None" "slot_of t (sized rt' s) = Some q'"
  shows "get q' = None"
proof (cases "device s")
  case None
  show ?thesis
  proof (cases t)
    case (Kind k)
    with None assms show ?thesis
      by (cases k) (auto simp add: sized_def device_slot_def split: if_splits)
  next
    case (DeviceIndex d)
    with None assms(3) show ?thesis
      by (auto simp add: sized_def device_slot_def split: if_splits)
  qed
next
  case (Some a)
  then have "sized rt s = s" "sized rt' s = s"
    by simp_all
  with assms show ?thesis
    by simp
qed

section \<open>The claims\<close>

subsection \<open>C1\<close>

text \<open>
  C1. For every memory kind, and for every device index, a call of \<open>share_default\<close> that
  returns a pointer leaves the slot holding it, and it is not null: any number of further
  calls, with no override in between, return that same pointer (the same allocator instance, \<open>get p\<close>) and
  change nothing in the state except that the client holds one more copy per call. In
  particular the store is unchanged, so no allocator is constructed after the first call.
  A request that goes through the current device needs \<open>cudaGetDevice\<close> to succeed;
  nothing between the calls changes the current device.
\<close>

theorem share_default_stable:
  assumes "share_default t rt s = (Inr p, s1)"
    and "uses_current_device t \<longrightarrow> (\<forall>r\<in>set rts. fails r cudaGetDevice = None)"
  shows "slot_of t s1 = Some p \<and> get p \<noteq> None \<and>
         repeat_calls (share_default t) rts s1 =
           (replicate (length rts) (Inr p), s1\<lparr>held := replicate (length rts) p @ held s1\<rparr>)"
proof -
  from assms(1) have "fst (share_default t rt s) = Inr p" "s1 = snd (share_default t rt s)"
    by simp_all
  with share_default_result [of t rt s p] have "slot_of t s1 = Some p" "get p \<noteq> None"
    by simp_all
  with assms(2) repeat_populated [of t s1 p rts] show ?thesis
    by simp
qed

theorem share_default_stable_witness:
  "fst (share_default (Kind Pinned) (platform [] 1) (initial_world 0))
     = Inr \<lparr>get = Some 1, owns = [1, 0]\<rparr>
   \<and> fst (repeat_calls (share_default (Kind Pinned))
            [platform [] 1, platform [(''DALI_USE_PINNED_MEM_POOL'', ''0'')] 1]
            (snd (share_default (Kind Pinned) (platform [] 1) (initial_world 0))))
     = [Inr \<lparr>get = Some 1, owns = [1, 0]\<rparr>, Inr \<lparr>get = Some 1, owns = [1, 0]\<rparr>]"
proof -
  let ?rts = "[platform [] 1, platform [(''DALI_USE_PINNED_MEM_POOL'', ''0'')] 1]"
  have f: "fst (share_default (Kind Pinned) (platform [] 1) (initial_world 0))
             = Inr \<lparr>get = Some 1, owns = [1, 0]\<rparr>"
    by (simp add: run_defs)
  then have h: "share_default (Kind Pinned) (platform [] 1) (initial_world 0)
             = (Inr \<lparr>get = Some 1, owns = [1, 0]\<rparr>,
                snd (share_default (Kind Pinned) (platform [] 1) (initial_world 0)))"
    by (simp only: prod_eq_iff fst_conv snd_conv simp_thms)
  have a: "uses_current_device (Kind Pinned) \<longrightarrow> (\<forall>r\<in>set ?rts. fails r cudaGetDevice = None)"
    by simp
  from share_default_stable [OF h a]
  have "fst (repeat_calls (share_default (Kind Pinned)) ?rts
              (snd (share_default (Kind Pinned) (platform [] 1) (initial_world 0))))
          = replicate (length ?rts) (Inr \<lparr>get = Some 1, owns = [1, 0]\<rparr>)"
    by (simp only: fst_conv)
  also have "replicate (length ?rts) (Inr \<lparr>get = Some (1::nat), owns = [1, 0::nat]\<rparr>)
          = [Inr \<lparr>get = Some 1, owns = [1, 0]\<rparr>, Inr \<lparr>get = Some 1, owns = [1, 0]\<rparr>
             :: error + shared_ptr]"
    by (simp add: numeral_2_eq_2)
  finally show ?thesis
    using f by (simp only: simp_thms)
qed

subsection \<open>C2\<close>

text \<open>
  C2, as amended. A device index that is not negative and not below the size of the device
  table, or a negative one for which the current device is no valid index, makes
  \<open>share_default\<close> throw the range error that carries the index and the size of the table.
  The call stops after the table has been sized: the store, the destroyed objects, the
  other slots and every entry of the table are as before, a table sized by this call being
  empty throughout.
\<close>

theorem index_out_of_range_rejected:
  assumes "d0 < 0 \<longrightarrow> fails rt cudaGetDevice = None"
    and "InitDeviceResArray rt s = (Inr u, s1)"
    and "d = (if d0 < 0 then current_device s else d0)"
    and "d < 0 \<or> num_devices s1 \<le> d"
  shows "share_default (DeviceIndex d0) rt s = (Inl (out_of_range d (num_devices s1)), s1)
       \<and> heap s1 = heap s \<and> destroyed s1 = destroyed s \<and> held s1 = held s
       \<and> host s1 = host s \<and> pinned_async s1 = pinned_async s \<and> managed s1 = managed s
       \<and> (device s1 = device s \<or> device s1 = Some (replicate (nat (num_devices s1)) null_ptr))"
proof -
  from assms(2) have i: "fst (InitDeviceResArray rt s) = Inr u" "s1 = snd (InitDeviceResArray rt s)"
    by simp_all
  from assms(1,3) have c: "current_if_negative rt d0 s = Inr d"
    by (simp add: current_if_negative_def)
  from assms(4) have k: "CheckDeviceIndex d s1 = Some (out_of_range d (num_devices s1))"
    by (auto simp: CheckDeviceIndex_def)
  have "ShareDefaultDeviceResourceImpl rt d0 s = (Inl (out_of_range d (num_devices s1)), s1)"
    by (simp add: ShareDefaultDeviceResourceImpl_def c assms(2) k)
  moreover from Init_cases(1) [OF i(1)]
  have "device s1 = device s \<or> device s1 = Some (replicate (nat (num_devices s1)) null_ptr)"
    unfolding i(2) by auto
  ultimately show ?thesis
    by (simp add: ShareDefaultDeviceResource_def i(2))
qed

theorem index_out_of_range_rejected_witness:
  "share_default (DeviceIndex 2) (platform [] 2) (initial_world 0)
     = (Inl (out_of_range 2 2),
        (initial_world 0)\<lparr>num_devices := 2, device := Some [null_ptr, null_ptr]\<rparr>)"
proof -
  let ?s1 = "(initial_world 0)\<lparr>num_devices := 2, device := Some [null_ptr, null_ptr]\<rparr>"
  have 1: "(2::int) < 0 \<longrightarrow> fails (platform [] 2) cudaGetDevice = None" by simp
  have 2: "InitDeviceResArray (platform [] 2) (initial_world 0) = (Inr (), ?s1)"
    by (simp add: InitDeviceResArray_def platform_def initial_world_def numeral_2_eq_2)
  have 3: "(2::int) = (if (2::int) < 0 then current_device (initial_world 0) else 2)" by simp
  have 4: "(2::int) < 0 \<or> num_devices ?s1 \<le> 2" by simp
  from index_out_of_range_rejected [OF 1 2 3 4] show ?thesis
    by simp
qed

text \<open>
  C2 as stated fails for negative indices: \<open>- 1\<close> lies outside \<open>[0, device_count)\<close>, and
  \<open>share_default\<close> returns the allocator of the current device.
\<close>

theorem negative_index_not_rejected:
  "\<not> (0 \<le> (- 1 :: int) \<and> (- 1 :: int) < device_count (platform [] 1))
   \<and> fst (share_default (DeviceIndex (- 1)) (platform [] 1) (initial_world 0))
       = Inr \<lparr>get = Some 0, owns = [0]\<rparr>"
  by (simp add: run_defs)

subsection \<open>C3\<close>





subsection \<open>C4\<close>

text \<open>
  C4, as amended. In a state whose table has the recorded size and in which every device
  pointer and the pinned pointer start a chain of live stages that ends,
  \<open>ReleaseUnusedMemory\<close> returns normally. It changes the store only: the pool found first
  on each of these chains is trimmed, every other object is as before, and nothing at all
  changes when no chain has a pool. A second call returns the state of the first.
\<close>

theorem release_unused_memory_trims_once:
  assumes "table_ok s" "chains_end s"
  shows "ReleaseUnusedMemory s = Some (Inr (trim_pools s))
       \<and> ReleaseUnusedMemory (trim_pools s) = Some (Inr (trim_pools s))
       \<and> trim_pools s = s\<lparr>heap := heap (trim_pools s)\<rparr>
       \<and> length (heap (trim_pools s)) = length (heap s)
       \<and> (\<forall>a < length (heap s).
            heap (trim_pools s) ! a =
              (if a \<in> set (pools s) then (heap s ! a)\<lparr>cached := 0\<rparr> else heap s ! a))
       \<and> (pools s = [] \<longrightarrow> trim_pools s = s)"
proof -
  let ?P = "set (pools s)"
  have 1: "ReleaseUnusedMemory s = Some (Inr (trim_pools s))"
    using assms by (rule ReleaseUnusedMemory_trim)
  from assms(1) have t: "table_ok (trim ?P s)"
    by (simp add: table_ok_def split: option.splits)
  from pools_trim [OF assms(2), of ?P]
  have c: "chains_end (trim ?P s)" and p: "pools (trim ?P s) = pools s"
    by simp_all
  from ReleaseUnusedMemory_trim [OF t c]
  have 2: "ReleaseUnusedMemory (trim_pools s) = Some (Inr (trim_pools s))"
    by (simp add: trim_pools_def p trim_trim)
  have 3: "trim_pools s = s\<lparr>heap := heap (trim_pools s)\<rparr>"
    unfolding trim_pools_def by (rule trim_heap_eq)
  from 1 2 3 show ?thesis
    by (simp add: trim_pools_def trim_nth trim_empty)
qed

theorem release_unused_memory_trims_once_witness:
  "table_ok
     ((initial_world 0)\<lparr>pinned_async := \<lparr>get = Some 1, owns = [1, 0]\<rparr>,
        heap := [\<lparr>rtype = pinned_malloc_memory_resource, cached = 0\<rparr>,
                 \<lparr>rtype = async_pool_resource Pinned (Some 0), cached = 64\<rparr>]\<rparr>)
   \<and> chains_end
     ((initial_world 0)\<lparr>pinned_async := \<lparr>get = Some 1, owns = [1, 0]\<rparr>,
        heap := [\<lparr>rtype = pinned_malloc_memory_resource, cached = 0\<rparr>,
                 \<lparr>rtype = async_pool_resource Pinned (Some 0), cached = 64\<rparr>]\<rparr>)
   \<and> ReleaseUnusedMemory
     ((initial_world 0)\<lparr>pinned_async := \<lparr>get = Some 1, owns = [1, 0]\<rparr>,
        heap := [\<lparr>rtype = pinned_malloc_memory_resource, cached = 0\<rparr>,
                 \<lparr>rtype = async_pool_resource Pinned (Some 0), cached = 64\<rparr>]\<rparr>)
     = Some (Inr
     ((initial_world 0)\<lparr>pinned_async := \<lparr>get = Some 1, owns = [1, 0]\<rparr>,
        heap := [\<lparr>rtype = pinned_malloc_memory_resource, cached = 0\<rparr>,
                 \<lparr>rtype = async_pool_resource Pinned (Some 0), cached = 0\<rparr>]\<rparr>))"
proof -
  let ?w = "(initial_world 0)\<lparr>pinned_async := \<lparr>get = Some 1, owns = [1, 0]\<rparr>,
        heap := [\<lparr>rtype = pinned_malloc_memory_resource, cached = 0\<rparr>,
                 \<lparr>rtype = async_pool_resource Pinned (Some 0), cached = 64\<rparr>]\<rparr>"
  have t: "table_ok ?w"
    by (simp add: table_ok_def initial_world_def)
  have c: "chains_end ?w"
    by (simp add: chains_end_def trimmed_ptrs_def initial_world_def numeral_2_eq_2 alive_def)
  have p: "pools ?w = [1]"
    by (simp add: pools_def trimmed_ptrs_def initial_world_def numeral_2_eq_2
          List.map_filter_simps)
  have e: "trim_pools ?w = (initial_world 0)\<lparr>pinned_async := \<lparr>get = Some 1, owns = [1, 0]\<rparr>,
        heap := [\<lparr>rtype = pinned_malloc_memory_resource, cached = 0\<rparr>,
                 \<lparr>rtype = async_pool_resource Pinned (Some 0), cached = 0\<rparr>]\<rparr>"
    unfolding trim_pools_def p
    by (simp add: trim_def initial_world_def upt_rec [of 0] upt_rec [of 1])
  from release_unused_memory_trims_once [OF t c] t c show ?thesis
    unfolding e by (simp only: simp_thms)
qed

text \<open>
  C4 as stated fails: a client installs a pinned resource that is no pool and names itself
  as its upstream. The chain never ends and \<open>ReleaseUnusedMemory\<close> does not return.
\<close>

theorem release_unused_memory_may_not_return:
  "ReleaseUnusedMemory
     (SetDefaultResource_pinned (wrap (Some 0) False)
        ((initial_world 0)\<lparr>heap := [\<lparr>rtype = user_resource False (Some (Some 0)), cached = 0\<rparr>]\<rparr>))
   = None"
proof -
  let ?s = "SetDefaultResource_pinned (wrap (Some 0) False)
        ((initial_world 0)\<lparr>heap := [\<lparr>rtype = user_resource False (Some (Some 0)), cached = 0\<rparr>]\<rparr>)"
  have f: "device ?s = None" "get (pinned_async ?s) = Some 0"
    "heap ?s = [\<lparr>rtype = user_resource False (Some (Some 0)), cached = 0\<rparr>]"
    "destroyed ?s = []"
    by (simp_all add: SetDefaultResource_pinned_def assign_pinned_async_def wrap_def
          initial_world_def destroy_ptr_def null_ptr_def)
  have "GetPoolInterface ?s (Some 0) = None"
    by (rule self_upstream_never_returns) (simp_all add: f alive_def)
  then show ?thesis
    by (simp add: ReleaseUnusedMemory_def f release_pool_of_def)
qed

subsection \<open>C5\<close>

text \<open>
  C5. \<open>CreateDefaultDeviceResource\<close> either throws what one of its calls threw, or
  returns a resource chosen as follows, \<open>a\<close> being the next free address. With the device
  pool flag false it is a plain device allocator for the current device. With the flag
  true, the mapping compiled in and supported, and the mapping flag true, it is a single
  mapped pool with no upstream. Otherwise it is a coalescing pool at \<open>a + 1\<close> whose upstream
  is a plain device allocator at \<open>a\<close>, both kept alive by the composite pointer, the pool
  first.
\<close>

theorem device_strategy:
  "(case CreateDefaultDeviceResource rt s of
      (Inl e, s1) \<Rightarrow> (\<exists>c. fails rt c = Some e)
    | (Inr p, s1) \<Rightarrow>
        (let a = length (heap s);
             plain = \<lparr>rtype = cuda_malloc_memory_resource (current_device s), cached = 0\<rparr>
         in if \<not> fst (UseDeviceMemoryPool rt s)
            then p = owning a \<and> heap s1 = heap s @ [plain]
            else if DALI_USE_CUDA_VM_MAP rt \<and> cuvm_IsSupported rt \<and> fst (UseVMM rt s)
            then p = owning a
               \<and> heap s1 = heap s @ [\<lparr>rtype = async_pool_vm_resource, cached = 0\<rparr>]
            else p = make_shared_composite_resource (owning (a + 1)) (owning a)
               \<and> heap s1 = heap s @ [plain, \<lparr>rtype = async_pool_resource Device (Some a), cached = 0\<rparr>]))"
  apply (simp add: CreateDefaultDeviceResource_def make_shared_def
        UseDeviceMemoryPool_eq UseVMM_eq Let_def destroy_ptr_def owning_def flag_now_def
        split: option.split)
  apply (simp add: CUDARTLoader_def split: option.split)
  apply blast
  done

subsection \<open>C6\<close>

text \<open>
  C6. \<open>CreateDefaultPinnedResource\<close> either throws what one of its calls threw, or returns
  a resource chosen by the pinned pool flag alone. With the flag false it is the plain
  pinned allocator of the function's static. With the flag true it is a newly made
  coalescing pool whose upstream is the plain pinned allocator of the other static, both
  kept alive by the composite pointer, the pool first.
\<close>

theorem pinned_strategy:
  assumes "pinned_statics_ok s"
  shows "(case CreateDefaultPinnedResource rt s of
      (Inl e, s1) \<Rightarrow> (\<exists>c. fails rt c = Some e)
    | (Inr p, s1) \<Rightarrow>
        (if \<not> fst (UsePinnedMemoryPool rt s)
         then (\<exists>u. p = owning u \<and> pinned_upstream_plain s1 = Some u
                 \<and> u < length (heap s1)
                 \<and> rtype (heap s1 ! u) = pinned_malloc_memory_resource)
         else (\<exists>u a. p = make_shared_composite_resource (owning a) (owning u)
                 \<and> pinned_upstream s1 = Some u
                 \<and> u < a \<and> length (heap s) \<le> a \<and> length (heap s1) = a + 1
                 \<and> rtype (heap s1 ! u) = pinned_malloc_memory_resource
                 \<and> heap s1 ! a = \<lparr>rtype = async_pool_resource Pinned (Some u), cached = 0\<rparr>)))"
proof -
  note defs = CreateDefaultPinnedResource_def make_shared_def UsePinnedMemoryPool_eq
    is_pinned_malloc_def nth_append owning_def make_shared_composite_resource_def
  from assms have p: "is_pinned_malloc s (pinned_upstream_plain s)"
    and q: "is_pinned_malloc s (pinned_upstream s)"
    by (simp_all add: pinned_statics_ok_def)
  show ?thesis
  proof (cases "flag_now PinnedMemPool rt s")
    case False
    show ?thesis
    proof (cases "pinned_upstream_plain s")
      case None
      with False show ?thesis
        by (auto simp add: defs split: option.split)
    next
      case (Some u)
      with False p show ?thesis
        by (simp add: defs)
    qed
  next
    case True
    show ?thesis
    proof (cases "pinned_upstream s")
      case None
      with True show ?thesis
        by (auto simp add: defs split: option.split)
    next
      case (Some u)
      with True q show ?thesis
        by (auto simp add: defs split: option.split)
    qed
  qed
qed

theorem pinned_strategy_witness:
  "pinned_statics_ok (initial_world 0)
   \<and> fst (CreateDefaultPinnedResource (platform [] 1) (initial_world 0))
       = Inr (make_shared_composite_resource (owning 1) (owning 0))
   \<and> (case CreateDefaultPinnedResource (platform [] 1) (initial_world 0) of
      (Inl e, s1) \<Rightarrow> (\<exists>c. fails (platform [] 1) c = Some e)
    | (Inr p, s1) \<Rightarrow>
        (if \<not> fst (UsePinnedMemoryPool (platform [] 1) (initial_world 0))
         then (\<exists>u. p = owning u \<and> pinned_upstream_plain s1 = Some u
                 \<and> u < length (heap s1)
                 \<and> rtype (heap s1 ! u) = pinned_malloc_memory_resource)
         else (\<exists>u a. p = make_shared_composite_resource (owning a) (owning u)
                 \<and> pinned_upstream s1 = Some u
                 \<and> u < a \<and> length (heap (initial_world 0)) \<le> a \<and> length (heap s1) = a + 1
                 \<and> rtype (heap s1 ! u) = pinned_malloc_memory_resource
                 \<and> heap s1 ! a = \<lparr>rtype = async_pool_resource Pinned (Some u), cached = 0\<rparr>)))"
proof -
  have h: "pinned_statics_ok (initial_world 0)"
    by (simp add: pinned_statics_ok_def is_pinned_malloc_def initial_world_def)
  have e: "fst (CreateDefaultPinnedResource (platform [] 1) (initial_world 0))
       = Inr (make_shared_composite_resource (owning 1) (owning 0))"
    by (simp add: run_defs)
  from h e pinned_strategy [OF h, of "platform [] 1"] show ?thesis
    by (intro conjI)
qed

subsection \<open>C7\<close>

text \<open>
  C7, as amended. Each flag is read from the environment only while no value is cached;
  the value read is cached, every later call returns it, whatever the environment says
  then, and \<open>share_default\<close>, the one operation that asks for the flags, leaves a cached
  value as it is. The value read is true when the variable is unset, and otherwise true
  exactly when \<open>atoi\<close> of its text is not zero.
\<close>

theorem flags_read_once:
  assumes "use_flag f rt s = (v, s1)"
  shows "use_flag f rt' s1 = (v, s1)
       \<and> flag_value f (snd (share_default t rt'' s1)) = Some v
       \<and> (flag_value f s = None \<longrightarrow>
            v = (case getenv rt (flag_name f) of None \<Rightarrow> True | Some env \<Rightarrow> atoi rt env \<noteq> 0))
       \<and> (\<forall>b. flag_value f s = Some b \<longrightarrow> v = b \<and> s1 = s)"
proof (cases "flag_value f s")
  case None
  from use_flag_first [OF None, of rt] assms
  have v: "v = env_flag rt (flag_name f)" and c: "flag_value f s1 = Some v"
    by simp_all
  from use_flag_cached [OF c] flag_kept_share_default [OF c] v None show ?thesis
    by (simp add: env_flag_def)
next
  case (Some b)
  from use_flag_cached [OF Some, of rt] assms have "v = b" "s1 = s"
    by simp_all
  with Some use_flag_cached [OF Some] flag_kept_share_default [OF Some] show ?thesis
    by simp
qed

theorem flags_read_once_witness:
  "use_flag VMM (platform [] 1) (initial_world 0)
     = (True, (initial_world 0)\<lparr>UseVMM_value := Some True\<rparr>)
   \<and> use_flag VMM (platform [(''DALI_USE_VMM'', ''0'')] 1)
        ((initial_world 0)\<lparr>UseVMM_value := Some True\<rparr>)
     = (True, (initial_world 0)\<lparr>UseVMM_value := Some True\<rparr>)"
proof -
  have h: "use_flag VMM (platform [] 1) (initial_world 0)
             = (True, (initial_world 0)\<lparr>UseVMM_value := Some True\<rparr>)"
    by (simp add: UseVMM_def env_flag_def platform_def initial_world_def)
  from flags_read_once [OF h, of "platform [(''DALI_USE_VMM'', ''0'')] 1"] h
  show ?thesis
    by (simp only: simp_thms)
qed

text \<open>
  C7 as stated fails: with \<open>DALI_USE_VMM=no\<close> the variable is not set to zero, yet the
  flag is false, since \<open>atoi\<close> finds no digits.
\<close>

theorem flag_text_without_digits_disables:
  "fst (use_flag VMM (platform [(''DALI_USE_VMM'', ''no'')] 1) (initial_world 0)) = False"
  by (simp add: UseVMM_def initial_world_def env_flag_def platform_def atoi_def isspace_def
        isdigit_def INT_MIN_def INT_MAX_def)

subsection \<open>C8\<close>




subsection \<open>C9\<close>

text \<open>
  C9. Let the slot that \<open>share_default\<close> is asked for be empty; for device memory this is
  the slot the target names once the table has its size. \<open>share_default\<close> then makes
  the calls of \<open>share_calls\<close>, in their order. If one of them throws, \<open>share_default\<close>
  throws the error of the first that does, whatever calls succeeded before it. The three
  single slots are then as before, the device table is as before or, if this call sized it,
  empty throughout, nothing has been handed to the client, and the slot is still empty.
  A later call for the same target, on any platform on which the target names a slot, goes
  through construction again: it throws the first error of its own calls, and if none of
  them throws it returns a non-null pointer which the slot then holds. If no call throws in
  the first place, \<open>share_default\<close> returns a non-null pointer which the slot then holds.
\<close>

theorem construction_failure_propagates:
  assumes "slot_of t (sized rt s) = Some q" and "get q = None"
  shows "case first_failure rt (share_calls t rt s) of
           Some e \<Rightarrow>
             (\<exists>s1. share_default t rt s = (Inl e, s1)
                \<and> host s1 = host s \<and> pinned_async s1 = pinned_async s \<and> managed s1 = managed s
                \<and> (device s1 = device s
                   \<or> (device s = None
                      \<and> device s1 = Some (replicate (nat (num_devices s1)) null_ptr)))
                \<and> held s1 = held s
                \<and> slot_of t (sized rt s1) = Some q
                \<and> (slot_of t (sized rt' s1) \<noteq> None \<longrightarrow>
                     (case first_failure rt' (share_calls t rt' s1) of
                        Some e' \<Rightarrow> fst (share_default t rt' s1) = Inl e'
                      | None \<Rightarrow>
                          (\<exists>p s2. share_default t rt' s1 = (Inr p, s2) \<and> get p \<noteq> None
                                 \<and> slot_of t s2 = Some p))))
         | None \<Rightarrow>
             (\<exists>p s1. share_default t rt s = (Inr p, s1) \<and> get p \<noteq> None
                    \<and> slot_of t s1 = Some p)"
proof -
  have ok: "\<exists>p s1. share_default t rt s = (Inr p, s1) \<and> get p \<noteq> None \<and> slot_of t s1 = Some p"
    if "slot_of t (sized rt s) = Some q" "get q = None"
      "first_failure rt (share_calls t rt s) = None" for rt s q
  proof -
    from share_default_outcome [OF that(1,2)] that(3)
    obtain p where p: "fst (share_default t rt s) = Inr p"
      by auto
    from share_default_result [OF p] p show ?thesis
      by (intro exI [of _ p] exI [of _ "snd (share_default t rt s)"]) (simp add: prod_eq_iff)
  qed
  show ?thesis
  proof (cases "first_failure rt (share_calls t rt s)")
    case None
    with ok [OF assms] show ?thesis
      by simp
  next
    case (Some e)
    let ?s1 = "snd (share_default t rt s)"
    from share_default_outcome [OF assms] Some have f: "fst (share_default t rt s) = Inl e"
      by simp
    then have r: "share_default t rt s = (Inl e, ?s1)"
      by (simp add: prod_eq_iff)
    from share_default_fail_slot [OF f] assms(1) have q: "slot_of t (sized rt ?s1) = Some q"
      by simp
    have again: "case first_failure rt' (share_calls t rt' ?s1) of
          Some e' \<Rightarrow> fst (share_default t rt' ?s1) = Inl e'
        | None \<Rightarrow>
            (\<exists>p s2. share_default t rt' ?s1 = (Inr p, s2) \<and> get p \<noteq> None
                   \<and> slot_of t s2 = Some p)"
      if "slot_of t (sized rt' ?s1) \<noteq> None"
    proof -
      from that obtain q' where q': "slot_of t (sized rt' ?s1) = Some q'"
        by auto
      from retry_slot_empty [OF q assms(2) q'] have n: "get q' = None" .
      show ?thesis
      proof (cases "first_failure rt' (share_calls t rt' ?s1)")
        case None
        with ok [OF q' n] show ?thesis
          by simp
      next
        case (Some e')
        with share_default_outcome [OF q' n] show ?thesis
          by simp
      qed
    qed
    from share_default_fail [OF f] q again
    have "host ?s1 = host s \<and> pinned_async ?s1 = pinned_async s \<and> managed ?s1 = managed s
        \<and> (device ?s1 = device s
           \<or> (device s = None
              \<and> device ?s1 = Some (replicate (nat (num_devices ?s1)) null_ptr)))
        \<and> held ?s1 = held s
        \<and> slot_of t (sized rt ?s1) = Some q
        \<and> (slot_of t (sized rt' ?s1) \<noteq> None \<longrightarrow>
             (case first_failure rt' (share_calls t rt' ?s1) of
                Some e' \<Rightarrow> fst (share_default t rt' ?s1) = Inl e'
              | None \<Rightarrow>
                  (\<exists>p s2. share_default t rt' ?s1 = (Inr p, s2) \<and> get p \<noteq> None
                         \<and> slot_of t s2 = Some p)))"
      by blast
    with r have "\<exists>s1. share_default t rt s = (Inl e, s1)
                \<and> host s1 = host s \<and> pinned_async s1 = pinned_async s \<and> managed s1 = managed s
                \<and> (device s1 = device s
                   \<or> (device s = None
                      \<and> device s1 = Some (replicate (nat (num_devices s1)) null_ptr)))
                \<and> held s1 = held s
                \<and> slot_of t (sized rt s1) = Some q
                \<and> (slot_of t (sized rt' s1) \<noteq> None \<longrightarrow>
                     (case first_failure rt' (share_calls t rt' s1) of
                        Some e' \<Rightarrow> fst (share_default t rt' s1) = Inl e'
                      | None \<Rightarrow>
                          (\<exists>p s2. share_default t rt' s1 = (Inr p, s2) \<and> get p \<noteq> None
                                 \<and> slot_of t s2 = Some p)))"
      by (intro exI [of _ ?s1] conjI) simp_all
    with Some show ?thesis
      by simp
  qed
qed

theorem construction_failure_propagates_witness:
  "share_calls (Kind Device) (platform_failing cudaGetDevice_in_create 2 [] 1) (initial_world 0)
     = [cudaGetDevice, cudaGetDeviceCount, DeviceGuard_ctor,
        cudaGetDevice_in_loader loader_device, DeviceGuard_in_loader loader_device,
        cudaGetDevice_in_loader loader_create, DeviceGuard_in_loader loader_create,
        CUDAEventPool_instance, cudaGetDevice_in_create, make_async_pool_vm]
   \<and> fst (share_default (Kind Device) (platform_failing cudaGetDevice_in_create 2 [] 1)
          (initial_world 0))
     = Inl (runtime_error 2)
   \<and> slot_of (Kind Device)
       (sized (platform_failing cudaGetDevice_in_create 2 [] 1)
          (snd (share_default (Kind Device) (platform_failing cudaGetDevice_in_create 2 [] 1)
                  (initial_world 0))))
     = Some null_ptr
   \<and> share_calls (Kind Device) (platform [] 1)
       (snd (share_default (Kind Device) (platform_failing cudaGetDevice_in_create 2 [] 1)
               (initial_world 0)))
     = [cudaGetDevice, DeviceGuard_ctor, cudaGetDevice_in_create, make_async_pool_vm]
   \<and> fst (share_default (Kind Device) (platform [] 1)
       (snd (share_default (Kind Device) (platform_failing cudaGetDevice_in_create 2 [] 1)
               (initial_world 0))))
     = Inr \<lparr>get = Some 0, owns = [0]\<rparr>"
proof -
  let ?rt = "platform_failing cudaGetDevice_in_create 2 [] 1"
  let ?r = "share_default (Kind Device) ?rt (initial_world 0)"
  have h: "slot_of (Kind Device) (sized ?rt (initial_world 0)) = Some null_ptr"
    by (simp add: sized_def initial_world_def platform_failing_def platform_def device_slot_def)
  have c: "share_calls (Kind Device) ?rt (initial_world 0)
     = [cudaGetDevice, cudaGetDeviceCount, DeviceGuard_ctor,
        cudaGetDevice_in_loader loader_device, DeviceGuard_in_loader loader_device,
        cudaGetDevice_in_loader loader_create, DeviceGuard_in_loader loader_create,
        CUDAEventPool_instance, cudaGetDevice_in_create, make_async_pool_vm]"
    by (simp add: device_slot_calls_def device_calls_def loader_calls_def flag_now_def
          env_flag_def initial_world_def platform_failing_def platform_def)
  have ff: "first_failure ?rt (share_calls (Kind Device) ?rt (initial_world 0))
      = Some (runtime_error 2)"
    unfolding c by (simp add: platform_failing_def platform_def)
  from construction_failure_propagates [OF h get_null(1), of "platform [] 1"]
  have "\<exists>s1. ?r = (Inl (runtime_error 2), s1)
      \<and> slot_of (Kind Device) (sized ?rt s1) = Some null_ptr"
    unfolding ff option.case by blast
  then obtain s1 where s1: "?r = (Inl (runtime_error 2), s1)"
      "slot_of (Kind Device) (sized ?rt s1) = Some null_ptr"
    by blast
  from s1(1) have f: "fst ?r = Inl (runtime_error 2)" and "s1 = snd ?r"
    by simp_all
  with s1(2) have q: "slot_of (Kind Device) (sized ?rt (snd ?r)) = Some null_ptr"
    by simp
  have c2: "share_calls (Kind Device) (platform [] 1) (snd ?r)
     = [cudaGetDevice, DeviceGuard_ctor, cudaGetDevice_in_create, make_async_pool_vm]"
    by (simp add: device_slot_calls_def device_calls_def loader_calls_def flag_now_def
          run_defs platform_failing_def)
  have e: "fst (share_default (Kind Device) (platform [] 1) (snd ?r))
      = Inr \<lparr>get = Some 0, owns = [0]\<rparr>"
    by (simp add: run_defs platform_failing_def)
  from c f q c2 e show ?thesis
    by (simp only: simp_thms)
qed

subsection \<open>C10\<close>

text \<open>
  C10. A negative device index does not fail the range check: \<open>share_default\<close>,
  \<open>get_default\<close> and \<open>set_default\<close> ask the runtime for the current device and then behave
  exactly as if that device had been passed. The only failure the substitution itself can
  produce is that of \<open>cudaGetDevice\<close>.
\<close>

theorem negative_index_means_current_device:
  assumes "d < 0"
  shows "share_default (DeviceIndex d) rt s =
           (case fails rt cudaGetDevice of
              Some e \<Rightarrow> (Inl e, s)
            | None \<Rightarrow> share_default (DeviceIndex (current_device s)) rt s)
       \<and> get_default (DeviceIndex d) rt s =
           (case fails rt cudaGetDevice of
              Some e \<Rightarrow> (Inl e, s)
            | None \<Rightarrow> get_default (DeviceIndex (current_device s)) rt s)
       \<and> set_default (DeviceIndex d) rt p s =
           (case fails rt cudaGetDevice of
              Some e \<Rightarrow> Some (Inl e, destroy_ptr p s)
            | None \<Rightarrow> set_default (DeviceIndex (current_device s)) rt p s)"
  by (simp add: ShareDefaultDeviceResource_def GetDefaultDeviceResource_def
        device_negative [OF assms] Set_device_negative [OF assms] split: option.split)

theorem negative_index_means_current_device_witness:
  "(- 1 :: int) < 0
   \<and> share_default (DeviceIndex (- 1)) (platform [] 2) (initial_world 1)
       = share_default (DeviceIndex 1) (platform [] 2) (initial_world 1)
   \<and> get_default (DeviceIndex (- 1)) (platform [] 2) (initial_world 1)
       = get_default (DeviceIndex 1) (platform [] 2) (initial_world 1)
   \<and> set_default (DeviceIndex (- 1)) (platform [] 2) null_ptr (initial_world 1)
       = set_default (DeviceIndex 1) (platform [] 2) null_ptr (initial_world 1)"
proof -
  have c: "fails (platform [] 2) cudaGetDevice = None" "current_device (initial_world 1) = 1"
    by (simp_all add: platform_def initial_world_def)
  have n: "(- 1 :: int) < 0" by simp
  from negative_index_means_current_device [OF n, of "platform [] 2" "initial_world 1" null_ptr]
  show ?thesis
    unfolding c by (simp only: option.case n simp_thms)
qed

end
